theory Spec2Isabelle
  imports Complex_Main "HOL-Library.Sublist"
begin

section \<open>Strings as the page scripts and the coordinator use them\<close>

text \<open>
  A JavaScript string is modelled as a list of 8-bit characters (the Latin-1 range of
  UTF-16 code units).  The helpers below are the string methods the source calls.
\<close>

definition charCode :: "char \<Rightarrow> nat" where
  "charCode c = of_char c"

text \<open>\<^verbatim>\<open>toLowerCase\<close> on one code unit: A-Z, and the Latin-1 capitals other than the
  multiplication sign, move up by 32.\<close>

definition toLowerChar :: "char \<Rightarrow> char" where
  "toLowerChar c =
     (let n = charCode c in
      if (65 \<le> n \<and> n \<le> 90) \<or> (192 \<le> n \<and> n \<le> 222 \<and> n \<noteq> 215)
      then char_of (n + 32) else c)"

definition toLowerCase :: "string \<Rightarrow> string" where
  "toLowerCase s = map toLowerChar s"

text \<open>The characters matched by \<^verbatim>\<open>\s\<close> and removed by \<^verbatim>\<open>trim\<close>: tab, line feed,
  vertical tab, form feed, carriage return, space and the no-break space.\<close>

definition isWhitespace :: "char \<Rightarrow> bool" where
  "isWhitespace c = (charCode c \<in> {9, 10, 11, 12, 13, 32, 160})"

definition trim :: "string \<Rightarrow> string" where
  "trim s = rev (dropWhile isWhitespace (rev (dropWhile isWhitespace s)))"

text \<open>\<^verbatim>\<open>haystack.includes(needle)\<close>: the needle occurs as a contiguous block.\<close>

fun str_includes :: "string \<Rightarrow> string \<Rightarrow> bool" where
  "str_includes [] needle = (needle = [])"
| "str_includes (c # cs) needle = (prefix needle (c # cs) \<or> str_includes cs needle)"

definition startsWith :: "string \<Rightarrow> string \<Rightarrow> bool" where
  "startsWith s p = prefix p s"

text \<open>\<^verbatim>\<open>s.replace(/[class]+/g, r)\<close>: every maximal run of characters of the class
  becomes the replacement.\<close>

function replaceRuns :: "(char \<Rightarrow> bool) \<Rightarrow> string \<Rightarrow> string \<Rightarrow> string" where
  "replaceRuns P r [] = []"
| "replaceRuns P r (c # cs) =
     (if P c then r @ replaceRuns P r (dropWhile P cs) else c # replaceRuns P r cs)"
  by pat_completeness auto
termination
  by (relation "measure (\<lambda>(P, r, s). length s)")
     (auto simp: le_imp_less_Suc length_dropWhile_le)

text \<open>\<^verbatim>\<open>s.split(/[class]+/)\<close>: the fields between the runs, empty fields at the
  ends included.\<close>

function splitRuns :: "(char \<Rightarrow> bool) \<Rightarrow> string \<Rightarrow> string list" where
  "splitRuns P s =
     (let field = takeWhile (\<lambda>c. \<not> P c) s;
          rest = dropWhile (\<lambda>c. \<not> P c) s
      in case rest of
           [] \<Rightarrow> [field]
         | c # cs \<Rightarrow> field # splitRuns P (dropWhile P cs))"
  by pat_completeness auto
termination
proof (relation "measure (\<lambda>(P, s). length s)")
  show "wf (measure (\<lambda>(P :: char \<Rightarrow> bool, s :: string). length s))"
    by simp
next
  fix P :: "char \<Rightarrow> bool" and s field rest :: string and c :: char and cs :: string
  assume rest: "rest = dropWhile (\<lambda>c. \<not> P c) s" and cons: "rest = c # cs"
  have "length (dropWhile P cs) \<le> length cs"
    by (rule length_dropWhile_le)
  also have "length cs < length rest"
    using cons by simp
  also have "length rest \<le> length s"
    unfolding rest by (rule length_dropWhile_le)
  finally show "((P, dropWhile P cs), (P, s)) \<in> measure (\<lambda>(P, s). length s)"
    by simp
qed

section \<open>Model-option matching (pageActions: buildModelMatchersLiteral, findOption)\<close>

record model_matchers =
  labelTokens :: "string list"
  testIdTokens :: "string list"

text \<open>The local \<^verbatim>\<open>push\<close>: trim, and add to the insertion-ordered set when non-empty.\<close>

definition push :: "string \<Rightarrow> string list \<Rightarrow> string list" where
  "push v xs = (let normalized = trim v in
                if normalized \<noteq> [] \<and> normalized \<notin> set xs then xs @ [normalized] else xs)"

definition buildModelMatchersLiteral :: "string \<Rightarrow> model_matchers" where
  "buildModelMatchersLiteral targetModel =
     (let base = toLowerCase (trim targetModel);
          collapsed = filter (\<lambda>c. \<not> isWhitespace c) base;
          dotless = filter (\<lambda>c. c \<noteq> CHR ''.'') base;
          hyphenated = replaceRuns isWhitespace ''-'' base;
          l1 = push base [];
          l2 = push (replaceRuns isWhitespace '' '' base) l1;
          l3 = push collapsed l2;
          l4 = push dotless l3;
          l5 = push (''chatgpt '' @ base) l4;
          l6 = push (''chatgpt '' @ dotless) l5;
          l7 = push (''gpt '' @ base) l6;
          l8 = push (''gpt '' @ dotless) l7;
          l9 = foldl (\<lambda>acc token. push token acc) l8
                 (filter (\<lambda>t. t \<noteq> []) (map trim (splitRuns isWhitespace base)));
          t1 = push hyphenated [];
          t2 = push collapsed t1;
          t3 = push dotless t2;
          t4 = push (''model-switcher-'' @ hyphenated) t3;
          t5 = push (''model-switcher-'' @ collapsed) t4;
          labels = (if l9 = [] then [base] else l9);
          ids = (if t5 = [] then [replaceRuns isWhitespace ''-'' base] else t5)
      in \<lparr> labelTokens = filter (\<lambda>t. t \<noteq> []) labels,
           testIdTokens = filter (\<lambda>t. t \<noteq> []) ids \<rparr>)"

text \<open>The page-side \<^verbatim>\<open>normalizeText\<close>: lower-case, every run outside a-z0-9 becomes a
  space, whitespace runs collapse, then trim.\<close>

definition isLowerAlnum :: "char \<Rightarrow> bool" where
  "isLowerAlnum c =
     (let n = charCode c in (97 \<le> n \<and> n \<le> 122) \<or> (48 \<le> n \<and> n \<le> 57))"

definition normalizeText :: "string \<Rightarrow> string" where
  "normalizeText v =
     trim (replaceRuns isWhitespace '' ''
             (replaceRuns (\<lambda>c. \<not> isLowerAlnum c) '' '' (toLowerCase v)))"

text \<open>A menu entry as \<^verbatim>\<open>findOption\<close> reads it: its \<^verbatim>\<open>data-testid\<close> attribute (absent
  when None) and its text content.\<close>

record menu_option =
  dataTestid :: "string option"
  textContent :: string

definition optionMatches :: "model_matchers \<Rightarrow> menu_option \<Rightarrow> bool" where
  "optionMatches m opt =
     (let testid = toLowerCase (case dataTestid opt of None \<Rightarrow> [] | Some t \<Rightarrow> t);
          normalizedText = normalizeText (textContent opt);
          matchesTestId = (testid \<noteq> [] \<and> list_ex (\<lambda>i. str_includes testid i) (testIdTokens m));
          matchesText = list_ex (\<lambda>token.
              let normalizedToken = normalizeText token
              in normalizedToken \<noteq> [] \<and> str_includes normalizedText normalizedToken)
            (labelTokens m)
      in matchesTestId \<or> matchesText)"

text \<open>\<^verbatim>\<open>findOption\<close>: the first matching entry, menus in document order.\<close>

definition findOption :: "model_matchers \<Rightarrow> menu_option list list \<Rightarrow> menu_option option" where
  "findOption m menus = find (optionMatches m) (concat menus)"

text \<open>A separator, as \<^verbatim>\<open>normalizeText\<close> sees a character of a label: one that after
  lower-casing is outside a-z0-9, the class of its first replacement.\<close>

definition isSeparator :: "char \<Rightarrow> bool" where
  "isSeparator c = (\<not> isLowerAlnum (toLowerChar c))"

section \<open>Cookie normalisation (cookies.ts)\<close>

text \<open>
  A JavaScript number is NaN, an infinity or a finite value; finite values are
  rationals and the arithmetic on them is exact (the source computes in doubles, which
  agree with the exact result except within rounding error of a half-integer).
\<close>

datatype jsnumber = NaN | Num rat | PosInfinity | NegInfinity

text \<open>\<^verbatim>\<open>Math.round\<close>: the nearest integer, halves towards plus infinity.\<close>

definition mathRound :: "rat \<Rightarrow> rat" where
  "mathRound x = of_int \<lfloor>x + 1 / 2\<rfloor>"

text \<open>\<^verbatim>\<open>normalizeExpiration(expires?: number): number | undefined\<close>.  The first test
  \<^verbatim>\<open>!expires || Number.isNaN(expires)\<close> holds for undefined, zero and NaN.\<close>

fun normalizeExpiration :: "jsnumber option \<Rightarrow> jsnumber option" where
  "normalizeExpiration None = None"
| "normalizeExpiration (Some NaN) = None"
| "normalizeExpiration (Some NegInfinity) = None"
| "normalizeExpiration (Some PosInfinity) = Some PosInfinity"
| "normalizeExpiration (Some (Num v)) =
     (if v = 0 then None
      else if v \<le> 0 then None
      else if v > 1000000000000 then Some (Num (mathRound (v / 1000000 - 11644473600)))
      else if v > 1000000000 then Some (Num (mathRound (v / 1000)))
      else Some (Num (mathRound v)))"

text \<open>The cookie shape read from the credential store (type PuppeteerCookie).  A field
  that is absent is None; \<^verbatim>\<open>Secure\<close> and \<^verbatim>\<open>HttpOnly\<close> are None when they are not
  booleans.\<close>

record PuppeteerCookie =
  pc_name :: "string option"
  pc_value :: "string option"
  pc_domain :: "string option"
  pc_path :: "string option"
  pc_expires :: "jsnumber option"
  pc_Secure :: "bool option"
  pc_HttpOnly :: "bool option"

text \<open>The cookie shape handed to the network domain (type CookieParam), with the
  fields the source sets.\<close>

record CookieParam =
  cp_name :: string
  cp_value :: string
  cp_url :: "string option"
  cp_domain :: "string option"
  cp_path :: "string option"
  cp_expires :: "jsnumber option"
  cp_secure :: "bool option"
  cp_httpOnly :: "bool option"

definition normalizeCookie :: "PuppeteerCookie \<Rightarrow> string \<Rightarrow> CookieParam option" where
  "normalizeCookie cookie fallbackHost =
     (case pc_name cookie of
        None \<Rightarrow> None
      | Some n \<Rightarrow>
          if n = [] then None
          else
            let domain = (case pc_domain cookie of
                            None \<Rightarrow> fallbackHost
                          | Some d \<Rightarrow> if startsWith d ''.'' then d else d);
                expires = normalizeExpiration (pc_expires cookie);
                secure = (case pc_Secure cookie of Some b \<Rightarrow> b | None \<Rightarrow> True);
                httpOnly = (case pc_HttpOnly cookie of Some b \<Rightarrow> b | None \<Rightarrow> False)
            in Some \<lparr> cp_name = n,
                      cp_value = (case pc_value cookie of None \<Rightarrow> [] | Some v \<Rightarrow> v),
                      cp_url = None,
                      cp_domain = Some domain,
                      cp_path = Some (case pc_path cookie of None \<Rightarrow> ''/'' | Some p \<Rightarrow> p),
                      cp_expires = expires,
                      cp_secure = Some secure,
                      cp_httpOnly = Some httpOnly \<rparr>)"

text \<open>
  Normalising again means passing the CookieParam object back to normalizeCookie, which
  reads it through the PuppeteerCookie interface: name, value, domain, path and expires
  are the same properties, while the capitalised \<^verbatim>\<open>Secure\<close> and \<^verbatim>\<open>HttpOnly\<close> do not
  exist on a CookieParam (it carries \<^verbatim>\<open>secure\<close> and \<^verbatim>\<open>httpOnly\<close>).
\<close>

definition asPuppeteerCookie :: "CookieParam \<Rightarrow> PuppeteerCookie" where
  "asPuppeteerCookie c =
     \<lparr> pc_name = Some (cp_name c),
       pc_value = Some (cp_value c),
       pc_domain = cp_domain c,
       pc_path = cp_path c,
       pc_expires = cp_expires c,
       pc_Secure = None,
       pc_HttpOnly = None \<rparr>"

definition renormalizeCookie :: "CookieParam \<Rightarrow> string \<Rightarrow> CookieParam option" where
  "renormalizeCookie c fallbackHost = normalizeCookie (asPuppeteerCookie c) fallbackHost"

section \<open>Errors\<close>

text \<open>
  A thrown value: a plain \<^verbatim>\<open>Error\<close>, the subclass \<^verbatim>\<open>ChromeCookieSyncError\<close>, an
  \<^verbatim>\<open>Error\<close> constructed with a \<^verbatim>\<open>cause\<close>, or a value that is not an \<^verbatim>\<open>Error\<close>
  instance (carried as its \<^verbatim>\<open>String(...)\<close> rendering).
\<close>

datatype error =
    Error string
  | ChromeCookieSyncError string
  | ErrorWithCause string error
  | NonError string

fun isErrorInstance :: "error \<Rightarrow> bool" where
  "isErrorInstance (NonError s) = False"
| "isErrorInstance e = True"

fun isChromeCookieSyncError :: "error \<Rightarrow> bool" where
  "isChromeCookieSyncError (ChromeCookieSyncError m) = True"
| "isChromeCookieSyncError e = False"

text \<open>\<^verbatim>\<open>error instanceof Error ? error.message : String(error)\<close>\<close>

fun errorMessage :: "error \<Rightarrow> string" where
  "errorMessage (Error m) = m"
| "errorMessage (ChromeCookieSyncError m) = m"
| "errorMessage (ErrorWithCause m c) = m"
| "errorMessage (NonError s) = s"

section \<open>Loading the credential-store module (cookies.ts)\<close>

text \<open>What the dynamic import evaluates to: a module exposing
  \<^verbatim>\<open>getCookiesPromised\<close> itself, one exposing it on its default export, or neither.\<close>

datatype imported_module = ExposesFunction | ExposesOnDefault | ExposesNothing

datatype ChromeCookiesSecureModule = ModuleItself | DefaultExport

fun resolveChromeCookieModule :: "imported_module \<Rightarrow> ChromeCookiesSecureModule option" where
  "resolveChromeCookieModule ExposesFunction = Some ModuleItself"
| "resolveChromeCookieModule ExposesOnDefault = Some DefaultExport"
| "resolveChromeCookieModule ExposesNothing = None"

text \<open>The three case-insensitive patterns of isSqliteBindingError.\<close>

definition isSqliteBindingError :: "error \<Rightarrow> bool" where
  "isSqliteBindingError e =
     (if \<not> isErrorInstance e then False
      else let message = toLowerCase (errorMessage e)
           in str_includes message ''node_sqlite3.node''
            \<or> str_includes message ''bindings file''
            \<or> str_includes message ''module did not self-register'')"

text \<open>How the spawned rebuild ends: the \<^verbatim>\<open>exit\<close> event with its code (None when the
  child was ended by a signal) or the \<^verbatim>\<open>error\<close> event.  The child is taken to end.\<close>

datatype spawn_outcome = Exit "int option" | SpawnError

text \<open>
  The surroundings of one call: the result of the n-th dynamic import of the process,
  the value of ORACLE_ALLOW_SQLITE_REBUILD, how a spawned rebuild ends, what the
  module's \<^verbatim>\<open>getCookiesPromised\<close> yields for a URL (None when the value is not an
  array) and what \<^verbatim>\<open>new URL(u).hostname\<close> yields.
\<close>

record cookie_env =
  importResult :: "nat \<Rightarrow> error + imported_module"
  allowSqliteRebuild :: "string option"
  spawnResult :: spawn_outcome
  getCookiesPromised :: "string \<Rightarrow> error + PuppeteerCookie list option"
  urlHostname :: "string \<Rightarrow> error + string"

text \<open>
  The module-level state: the flag \<^verbatim>\<open>attemptedSqliteRebuild\<close>, with three counters
  that record what has happened in the process so far (dynamic imports made, passes
  through the guard of attemptSqliteRebuild, child processes spawned).
\<close>

record sync_state =
  attemptedSqliteRebuild :: bool
  importCalls :: nat
  rebuildAttempts :: nat
  spawnCalls :: nat

definition initialSyncState :: sync_state where
  "initialSyncState =
     \<lparr> attemptedSqliteRebuild = False, importCalls = 0, rebuildAttempts = 0, spawnCalls = 0 \<rparr>"

definition attemptSqliteRebuild :: "cookie_env \<Rightarrow> sync_state \<Rightarrow> bool \<times> sync_state" where
  "attemptSqliteRebuild env st =
     (if attemptedSqliteRebuild st then (False, st)
      else
        let st1 = st\<lparr> attemptedSqliteRebuild := True, rebuildAttempts := rebuildAttempts st + 1 \<rparr>
        in if allowSqliteRebuild env \<noteq> Some ''1'' then (False, st1)
           else
             let st2 = st1\<lparr> spawnCalls := spawnCalls st1 + 1 \<rparr>
             in case spawnResult env of
                  Exit code \<Rightarrow> (code = Some 0, st2)
                | SpawnError \<Rightarrow> (False, st2))"

definition loadFailed :: error where
  "loadFailed = ChromeCookieSyncError ''Unable to load chrome-cookies-secure. Cookie copy is required.''"

function loadChromeCookiesModule ::
  "cookie_env \<Rightarrow> sync_state \<Rightarrow> (error + ChromeCookiesSecureModule) \<times> sync_state" where
  "loadChromeCookiesModule env st =
     (let st1 = st\<lparr> importCalls := importCalls st + 1 \<rparr>
      in case importResult env (importCalls st) of
           Inl e \<Rightarrow>
             if isSqliteBindingError e then
               (if fst (attemptSqliteRebuild env st1)
                then loadChromeCookiesModule env (snd (attemptSqliteRebuild env st1))
                else (Inl loadFailed, snd (attemptSqliteRebuild env st1)))
             else (Inl loadFailed, st1)
         | Inr imported \<Rightarrow>
             (case resolveChromeCookieModule imported of
                None \<Rightarrow>
                  (Inl (ChromeCookieSyncError
                          ''chrome-cookies-secure did not expose getCookiesPromised''), st1)
              | Some secureModule \<Rightarrow> (Inr secureModule, st1)))"
  by pat_completeness auto
termination
  by (relation "measure (\<lambda>(env, st). if attemptedSqliteRebuild st then 0 else 1)")
     (auto simp: attemptSqliteRebuild_def Let_def split: if_splits spawn_outcome.splits)

declare loadChromeCookiesModule.simps [simp del]

text \<open>The life of a process: a sequence of calls of loadChromeCookiesModule, each in
  its own surroundings, on the module state the previous call left.\<close>

fun processLoads :: "cookie_env list \<Rightarrow> sync_state \<Rightarrow> sync_state" where
  "processLoads [] st = st"
| "processLoads (env # envs) st = processLoads envs (snd (loadChromeCookiesModule env st))"

text \<open>The bookkeeping the counters obey: the guard has been passed once exactly when the
  flag is set, and no child is spawned without passing it.\<close>

definition rebuildBudget :: "sync_state \<Rightarrow> bool" where
  "rebuildBudget st \<longleftrightarrow>
     rebuildAttempts st = (if attemptedSqliteRebuild st then 1 else 0)
     \<and> spawnCalls st \<le> rebuildAttempts st"

section \<open>Reading and applying cookies (cookies.ts)\<close>

text \<open>The inner loop of readChromeCookies: normalise, skip what normalises to null, and
  keep the first cookie seen under each key \<^verbatim>\<open>domain:name\<close>.\<close>

fun mergeCookies ::
  "string \<Rightarrow> PuppeteerCookie list \<Rightarrow> (string \<times> CookieParam) list \<Rightarrow> (string \<times> CookieParam) list" where
  "mergeCookies fallbackHostname [] merged = merged"
| "mergeCookies fallbackHostname (cookie # rest) merged =
     (case normalizeCookie cookie fallbackHostname of
        None \<Rightarrow> mergeCookies fallbackHostname rest merged
      | Some normalized \<Rightarrow>
          let key = (case cp_domain normalized of None \<Rightarrow> fallbackHostname | Some d \<Rightarrow> d)
                    @ '':'' @ cp_name normalized
          in if key \<in> fst ` set merged
             then mergeCookies fallbackHostname rest merged
             else mergeCookies fallbackHostname rest (merged @ [(key, normalized)]))"

fun readUrls ::
  "cookie_env \<Rightarrow> string list \<Rightarrow> (string \<times> CookieParam) list \<Rightarrow> error + (string \<times> CookieParam) list" where
  "readUrls env [] merged = Inr merged"
| "readUrls env (candidateUrl # rest) merged =
     (case getCookiesPromised env candidateUrl of
        Inl e \<Rightarrow> Inl e
      | Inr None \<Rightarrow> readUrls env rest merged
      | Inr (Some rawCookies) \<Rightarrow>
          (case urlHostname env candidateUrl of
             Inl e \<Rightarrow> Inl e
           | Inr fallbackHostname \<Rightarrow>
               readUrls env rest (mergeCookies fallbackHostname rawCookies merged)))"

text \<open>readChromeCookies.  The list \<open>urlsToCheck\<close> stands for
  \<^verbatim>\<open>Array.from(new Set([stripQuery(url), ...COOKIE_URLS]))\<close>.\<close>

definition readChromeCookies ::
  "cookie_env \<Rightarrow> sync_state \<Rightarrow> string list \<Rightarrow> (error + CookieParam list) \<times> sync_state" where
  "readChromeCookies env st urlsToCheck =
     (case loadChromeCookiesModule env st of
        (Inl e, st') \<Rightarrow> (Inl e, st')
      | (Inr chromeModule, st') \<Rightarrow>
          (case readUrls env urlsToCheck [] of
             Inl e \<Rightarrow> (Inl e, st')
           | Inr merged \<Rightarrow> (Inr (map snd merged), st')))"

definition cookieWithUrl :: "string \<Rightarrow> CookieParam \<Rightarrow> CookieParam" where
  "cookieWithUrl url cookie =
     (case cp_domain cookie of
        None \<Rightarrow> cookie\<lparr> cp_url := Some url \<rparr>
      | Some d \<Rightarrow>
          if d = [] \<or> d = ''localhost'' then cookie\<lparr> cp_url := Some url \<rparr>
          else if \<not> startsWith d ''.'' then cookie\<lparr> cp_url := Some (''https://'' @ d) \<rparr>
          else cookie)"

text \<open>What one run of the loop over the cookies leaves behind: the counter
  \<open>applied\<close>, the lines given to the logger, and the arguments of the
  \<^verbatim>\<open>Network.setCookie\<close> calls in the order they were made.\<close>

record apply_result =
  applied :: nat
  logged :: "string list"
  setCookieCalls :: "CookieParam list"

fun applyCookies ::
  "(CookieParam \<Rightarrow> error + bool) \<Rightarrow> string \<Rightarrow> CookieParam list \<Rightarrow> apply_result \<Rightarrow> apply_result" where
  "applyCookies setCookie url [] acc = acc"
| "applyCookies setCookie url (cookie # rest) acc =
     (let arg = cookieWithUrl url cookie;
          acc1 = acc\<lparr> setCookieCalls := setCookieCalls acc @ [arg] \<rparr>
      in case setCookie arg of
           Inr success \<Rightarrow>
             applyCookies setCookie url rest
               (if success then acc1\<lparr> applied := applied acc1 + 1 \<rparr> else acc1)
         | Inl e \<Rightarrow>
             applyCookies setCookie url rest
               (acc1\<lparr> logged := logged acc1 @
                  [''Failed to set cookie '' @ cp_name cookie @ '': '' @ errorMessage e] \<rparr>))"

text \<open>The line the loop logs for one cookie: none unless \<^verbatim>\<open>Network.setCookie\<close> throws.\<close>

definition setCookieLine :: "(CookieParam \<Rightarrow> error + bool) \<Rightarrow> string \<Rightarrow> CookieParam \<Rightarrow> string list" where
  "setCookieLine send u c =
     (case send (cookieWithUrl u c) of
        Inl e \<Rightarrow> [''Failed to set cookie '' @ cp_name c @ '': '' @ errorMessage e]
      | Inr ok \<Rightarrow> [])"

definition noCookiesApplied :: apply_result where
  "noCookiesApplied = \<lparr> applied = 0, logged = [], setCookieCalls = [] \<rparr>"

text \<open>syncCookies, given what readChromeCookies produced.  The result is the returned
  count or the thrown error, together with the log lines and the setCookie calls.\<close>

definition syncCookiesWith ::
  "(CookieParam \<Rightarrow> error + bool) \<Rightarrow> string \<Rightarrow> (error + CookieParam list) \<Rightarrow> bool
     \<Rightarrow> (error + nat) \<times> apply_result" where
  "syncCookiesWith setCookie url readResult allowErrors =
     (case readResult of
        Inr cookies \<Rightarrow>
          if cookies = [] then (Inr 0, noCookiesApplied)
          else let r = applyCookies setCookie url cookies noCookiesApplied
               in (Inr (applied r), r)
      | Inl e \<Rightarrow>
          let message = errorMessage e
          in if allowErrors
             then (Inr 0, noCookiesApplied\<lparr> logged :=
                     [''Cookie sync failed (continuing with override): '' @ message] \<rparr>)
             else (Inl (if isChromeCookieSyncError e then e else ChromeCookieSyncError message),
                   noCookiesApplied))"

definition syncCookies ::
  "cookie_env \<Rightarrow> sync_state \<Rightarrow> (CookieParam \<Rightarrow> error + bool) \<Rightarrow> string \<Rightarrow> string list \<Rightarrow> bool
     \<Rightarrow> ((error + nat) \<times> apply_result) \<times> sync_state" where
  "syncCookies env st setCookie url urlsToCheck allowErrors =
     (let (readResult, st') = readChromeCookies env st urlsToCheck
      in (syncCookiesWith setCookie url readResult allowErrors, st'))"

section \<open>The run coordinator (browser/index.ts)\<close>

subsection \<open>Configuration and options\<close>

record BrowserAttachment =
  path :: string
  displayPath :: string

text \<open>BrowserAutomationConfig: every field optional.\<close>

record BrowserAutomationConfig =
  o_chromeProfile :: "string option"
  o_chromePath :: "string option"
  o_url :: "string option"
  o_timeoutMs :: "nat option"
  o_inputTimeoutMs :: "nat option"
  o_cookieSync :: "bool option"
  o_headless :: "bool option"
  o_keepBrowser :: "bool option"
  o_hideWindow :: "bool option"
  o_desiredModel :: "string option"
  o_debug :: "bool option"
  o_allowCookieErrors :: "bool option"

record ResolvedBrowserConfig =
  chromeProfile :: "string option"
  chromePath :: "string option"
  url :: string
  timeoutMs :: nat
  inputTimeoutMs :: nat
  cookieSync :: bool
  headless :: bool
  keepBrowser :: bool
  hideWindow :: bool
  desiredModel :: "string option"
  debug :: bool
  allowCookieErrors :: bool

definition orElse :: "'a option \<Rightarrow> 'a \<Rightarrow> 'a" where
  "orElse v d = (case v of None \<Rightarrow> d | Some x \<Rightarrow> x)"

text \<open>DEFAULT_BROWSER_CONFIG; the constant CHATGPT_URL (constants.ts) is a parameter.\<close>

definition DEFAULT_BROWSER_CONFIG :: "string \<Rightarrow> ResolvedBrowserConfig" where
  "DEFAULT_BROWSER_CONFIG CHATGPT_URL =
     \<lparr> chromeProfile = None, chromePath = None, url = CHATGPT_URL,
       timeoutMs = 900000, inputTimeoutMs = 30000, cookieSync = True, headless = False,
       keepBrowser = False, hideWindow = False, desiredModel = None, debug = False,
       allowCookieErrors = False \<rparr>"

definition resolveBrowserConfig ::
  "string \<Rightarrow> BrowserAutomationConfig option \<Rightarrow> ResolvedBrowserConfig" where
  "resolveBrowserConfig CHATGPT_URL config =
     (let d = DEFAULT_BROWSER_CONFIG CHATGPT_URL in
      case config of
        None \<Rightarrow> d
      | Some c \<Rightarrow>
          \<lparr> chromeProfile = (case o_chromeProfile c of None \<Rightarrow> chromeProfile d | Some v \<Rightarrow> Some v),
            chromePath = (case o_chromePath c of None \<Rightarrow> chromePath d | Some v \<Rightarrow> Some v),
            url = orElse (o_url c) (url d),
            timeoutMs = orElse (o_timeoutMs c) (timeoutMs d),
            inputTimeoutMs = orElse (o_inputTimeoutMs c) (inputTimeoutMs d),
            cookieSync = orElse (o_cookieSync c) (cookieSync d),
            headless = orElse (o_headless c) (headless d),
            keepBrowser = orElse (o_keepBrowser c) (keepBrowser d),
            hideWindow = orElse (o_hideWindow c) (hideWindow d),
            desiredModel = (case o_desiredModel c of None \<Rightarrow> desiredModel d | Some v \<Rightarrow> Some v),
            debug = orElse (o_debug c) (debug d),
            allowCookieErrors = orElse (o_allowCookieErrors c) (allowCookieErrors d) \<rparr>)"

record BrowserRunOptions =
  prompt :: "string option"
  attachments :: "BrowserAttachment list option"
  config :: "BrowserAutomationConfig option"
  verbose :: "bool option"

record BrowserRunResult =
  answerText :: string
  answerMarkdown :: string
  answerHtml :: "string option"
  tookMs :: nat
  answerTokens :: nat
  answerChars :: nat
  chromePid :: "nat option"
  chromePort :: nat
  userDataDir :: string

subsection \<open>Effects\<close>

text \<open>
  Every call runBrowserMode makes on the file system, the browser process, the
  protocol connection or the page is an action.  EnsureModelSelection is the page step
  exported by pageActions; RetryDelay is the pause between two capture attempts.
\<close>

datatype action =
    MkdTemp
  | LaunchChrome
  | RegisterTerminationHooks
  | ConnectToChrome
  | HideChromeWindow
  | EnableDomains
  | ClearBrowserCookies
  | SyncCookies
  | NavigateToChatGPT
  | EnsureNotBlocked
  | EnsurePromptReady
  | EnsureModelSelection
  | UploadAttachmentFile string
  | WaitForAttachmentCompletion
  | SubmitPrompt
  | StartThinkingStatusMonitor
  | WaitForAssistantResponse
  | CaptureAssistantMarkdown nat
  | RetryDelay nat
  | StopThinkingMonitor
  | ClientClose
  | RemoveTerminationHooks
  | ChromeKill
  | RmUserDataDir

text \<open>The answer waitForAssistantResponse returns.\<close>

record AssistantAnswer =
  answer_text :: string
  answer_html :: "string option"
  answer_turnId :: "string option"
  answer_messageId :: "string option"

text \<open>The value the copy expression evaluates to in the page.\<close>

record copy_evaluation =
  success :: bool
  markdown :: "string option"
  status :: "string option"

text \<open>
  The world of one run: for each action whether it throws; whether the connection
  emits \<^verbatim>\<open>disconnect\<close> while that action is awaited; and the data the successful
  calls return.  \<^verbatim>\<open>estimateTokenCount\<close> (utils.ts) and the URL list of the cookie
  reader are parameters.
\<close>

record world =
  stepFailure :: "action \<Rightarrow> error option"
  disconnectDuring :: "action \<Rightarrow> bool"
  defaultUrl :: string
  tmpDir :: string
  launchedPid :: "nat option"
  launchedPort :: nat
  domPresent :: bool
  cookieEnv :: cookie_env
  cookieUrls :: "string \<Rightarrow> string list"
  setCookie :: "CookieParam \<Rightarrow> error + bool"
  answer :: AssistantAnswer
  copyEvaluation :: "nat \<Rightarrow> copy_evaluation option"
  estimateTokenCount :: "string \<Rightarrow> nat"
  elapsedMs :: nat

text \<open>
  The mutable variables of the run (\<^verbatim>\<open>client\<close>, \<^verbatim>\<open>removeTerminationHooks\<close>,
  \<^verbatim>\<open>stopThinkingMonitor\<close> non-null, \<^verbatim>\<open>connectionClosedUnexpectedly\<close>), whether the
  disconnect listener is registered, the module state of the cookie reader, and the
  actions performed so far.
\<close>

record run_state =
  trace :: "action list"
  client :: bool
  listening :: bool
  hooks :: bool
  monitor :: bool
  connectionClosedUnexpectedly :: bool
  sync :: sync_state

type_synonym 'a step = "run_state \<Rightarrow> (error + 'a) \<times> run_state"

definition andThen :: "'a step \<Rightarrow> ('a \<Rightarrow> 'b step) \<Rightarrow> 'b step" where
  "andThen m f st = (case m st of (Inl e, st') \<Rightarrow> (Inl e, st') | (Inr x, st') \<Rightarrow> f x st')"

definition succeed :: "'a \<Rightarrow> 'a step" where
  "succeed x st = (Inr x, st)"

definition throw :: "error \<Rightarrow> 'a step" where
  "throw e st = (Inl e, st)"

text \<open>An awaited call with a given outcome: the action is recorded, and a disconnect
  event delivered while it is pending runs \<^verbatim>\<open>markConnectionLost\<close>.\<close>

definition awaitWith :: "world \<Rightarrow> action \<Rightarrow> (error + 'a) \<Rightarrow> 'a step" where
  "awaitWith w a outcome st =
     (outcome,
      st\<lparr> trace := trace st @ [a],
          connectionClosedUnexpectedly :=
            connectionClosedUnexpectedly st \<or> (listening st \<and> disconnectDuring w a) \<rparr>)"

definition await :: "world \<Rightarrow> action \<Rightarrow> unit step" where
  "await w a = awaitWith w a (case stepFailure w a of None \<Rightarrow> Inr () | Some e \<Rightarrow> Inl e)"

text \<open>An awaited call whose failure is swallowed (\<^verbatim>\<open>try { await ... } catch {}\<close>).\<close>

definition awaitIgnoringErrors :: "world \<Rightarrow> action \<Rightarrow> run_state \<Rightarrow> run_state" where
  "awaitIgnoringErrors w a st = snd (await w a st)"

text \<open>A synchronous call.\<close>

definition call :: "action \<Rightarrow> run_state \<Rightarrow> run_state" where
  "call a st = st\<lparr> trace := trace st @ [a] \<rparr>"

subsection \<open>Before the try block\<close>

definition promptRequired :: error where
  "promptRequired = Error ''Prompt text is required when using browser mode.''"

definition freshRun :: "sync_state \<Rightarrow> run_state" where
  "freshRun s =
     \<lparr> trace = [], client = False, listening = False, hooks = False, monitor = False,
       connectionClosedUnexpectedly = False, sync = s \<rparr>"

text \<open>
  Lines 27 to 60: the prompt check, the resolved configuration, the temporary profile
  directory, the browser launch and the termination hooks (whose failure is ignored).
  Logger calls are observations and are left out throughout.
\<close>

definition enterRun ::
  "world \<Rightarrow> BrowserRunOptions \<Rightarrow> (string \<times> BrowserAttachment list \<times> ResolvedBrowserConfig) step" where
  "enterRun w options =
     (case map_option trim (prompt options) of
        None \<Rightarrow> throw promptRequired
      | Some promptText \<Rightarrow>
          if promptText = [] then throw promptRequired
          else
            let atts = orElse (attachments options) [];
                cfg = resolveBrowserConfig (defaultUrl w) (config options)
            in andThen (await w MkdTemp) (\<lambda>_.
               andThen (await w LaunchChrome) (\<lambda>_.
               (\<lambda>st. (Inr (promptText, atts, cfg),
                  (call RegisterTerminationHooks st)
                    \<lparr> hooks := (stepFailure w RegisterTerminationHooks = None) \<rparr>)))))"

subsection \<open>The try block\<close>

definition syncCookiesStep :: "world \<Rightarrow> ResolvedBrowserConfig \<Rightarrow> unit step" where
  "syncCookiesStep w cfg st =
     (let (r, sync') = syncCookies (cookieEnv w) (sync st) (setCookie w) (url cfg)
                         (cookieUrls w (url cfg)) (allowCookieErrors cfg);
          (outcome, st') = awaitWith w SyncCookies (fst r) st
      in (case outcome of Inl e \<Rightarrow> Inl e | Inr cookieCount \<Rightarrow> Inr (), st'\<lparr> sync := sync' \<rparr>))"

text \<open>Lines 72 to 105: connect, register the disconnect listener, hide the window,
  enable the domains, clear the cookies, copy the cookies.\<close>

definition connectAndPrepare :: "world \<Rightarrow> ResolvedBrowserConfig \<Rightarrow> unit step" where
  "connectAndPrepare w cfg =
     andThen (await w ConnectToChrome) (\<lambda>_.
     andThen (\<lambda>st. (Inr (), st\<lparr> client := True, listening := True \<rparr>)) (\<lambda>_.
     andThen (if \<not> headless cfg \<and> hideWindow cfg then await w HideChromeWindow else succeed ()) (\<lambda>_.
     andThen (await w EnableDomains) (\<lambda>_.
     andThen (await w ClearBrowserCookies) (\<lambda>_.
     (if cookieSync cfg then syncCookiesStep w cfg else succeed ()))))))"

text \<open>Lines 107 to 110.\<close>

definition openPage :: "world \<Rightarrow> unit step" where
  "openPage w =
     andThen (await w NavigateToChatGPT) (\<lambda>_.
     andThen (await w EnsureNotBlocked) (\<lambda>_.
     await w EnsurePromptReady))"

text \<open>Lines 111 to 122.\<close>

fun uploadEach :: "world \<Rightarrow> BrowserAttachment list \<Rightarrow> unit step" where
  "uploadEach w [] = succeed ()"
| "uploadEach w (attachment # rest) =
     andThen (await w (UploadAttachmentFile (path attachment))) (\<lambda>_. uploadEach w rest)"

definition uploadAttachments :: "world \<Rightarrow> BrowserAttachment list \<Rightarrow> unit step" where
  "uploadAttachments w atts =
     (if atts = [] then succeed ()
      else if \<not> domPresent w
      then throw (Error ''Chrome DOM domain unavailable while uploading attachments.'')
      else andThen (uploadEach w atts) (\<lambda>_. await w WaitForAttachmentCompletion))"

text \<open>Lines 123 to 127.\<close>

definition submitAndWait :: "world \<Rightarrow> AssistantAnswer step" where
  "submitAndWait w =
     andThen (await w SubmitPrompt) (\<lambda>_.
     andThen (\<lambda>st. (Inr (), (call StartThinkingStatusMonitor st)\<lparr> monitor := True \<rparr>)) (\<lambda>_.
     andThen (await w WaitForAssistantResponse) (\<lambda>_.
     succeed (answer w))))"

text \<open>captureAssistantMarkdown (pageActions): one evaluation of the copy expression;
  the markdown when the page reports success with a string, else null.\<close>

definition captureAssistantMarkdown :: "world \<Rightarrow> nat \<Rightarrow> string option step" where
  "captureAssistantMarkdown w attempt =
     andThen (await w (CaptureAssistantMarkdown attempt)) (\<lambda>_.
     succeed (case copyEvaluation w attempt of
                None \<Rightarrow> None
              | Some v \<Rightarrow> if success v then markdown v else None))"

text \<open>The task handed to withRetries (lines 129 to 135): a null or empty capture is
  turned into the error copy-missing.\<close>

definition captureTask :: "world \<Rightarrow> nat \<Rightarrow> string step" where
  "captureTask w attempt =
     andThen (captureAssistantMarkdown w attempt) (\<lambda>captured.
       case captured of
         None \<Rightarrow> throw (Error ''copy-missing'')
       | Some md \<Rightarrow> if md = [] then throw (Error ''copy-missing'') else succeed md)"

text \<open>
  Modelled from the spec: withRetries of utils.ts, which is not among the sources.  The
  spec gives it as a small bounded number of retries with a short backoff: the task is
  run; when it throws and retries remain, the pause is awaited and the task is run
  again; the error of the last run is rethrown.
\<close>

fun withRetries :: "world \<Rightarrow> (nat \<Rightarrow> 'a step) \<Rightarrow> nat \<Rightarrow> nat \<Rightarrow> 'a step" where
  "withRetries w task 0 attempt st = task attempt st"
| "withRetries w task (Suc retries) attempt st =
     (case task attempt st of
        (Inr v, st') \<Rightarrow> (Inr v, st')
      | (Inl e, st') \<Rightarrow>
          withRetries w task retries (Suc attempt)
            (snd (awaitWith w (RetryDelay attempt) (Inr ()) st')))"

text \<open>Lines 128 to 147: two retries, and \<^verbatim>\<open>.catch(() => null)\<close> on the whole.\<close>

definition copiedMarkdown :: "world \<Rightarrow> run_state \<Rightarrow> string option \<times> run_state" where
  "copiedMarkdown w st =
     (case withRetries w (captureTask w) 2 0 st of
        (Inr md, st') \<Rightarrow> (Some md, st')
      | (Inl e, st') \<Rightarrow> (None, st'))"

text \<open>Lines 126 to 164: the result is built from the answer and the capture.\<close>

definition finishRun :: "world \<Rightarrow> AssistantAnswer \<Rightarrow> BrowserRunResult step" where
  "finishRun w ans st =
     (let (copied, st1) = copiedMarkdown w st;
          answerTextV = answer_text ans;
          answerHtmlV = orElse (answer_html ans) [];
          answerMarkdownV = orElse copied answerTextV;
          st2 = (if monitor st1 then call StopThinkingMonitor st1 else st1)
      in (Inr \<lparr> answerText = answerTextV,
                answerMarkdown = answerMarkdownV,
                answerHtml = (if answerHtmlV \<noteq> [] then Some answerHtmlV else None),
                tookMs = elapsedMs w,
                answerTokens = estimateTokenCount w answerMarkdownV,
                answerChars = length answerTextV,
                chromePid = launchedPid w,
                chromePort = launchedPort w,
                userDataDir = tmpDir w \<rparr>, st2))"

text \<open>The body of the try block, in source order.\<close>

definition tryBlock ::
  "world \<Rightarrow> ResolvedBrowserConfig \<Rightarrow> string \<Rightarrow> BrowserAttachment list \<Rightarrow> BrowserRunResult step" where
  "tryBlock w cfg promptText atts =
     andThen (connectAndPrepare w cfg) (\<lambda>_.
     andThen (openPage w) (\<lambda>_.
     andThen (uploadAttachments w atts) (\<lambda>_.
     andThen (submitAndWait w) (\<lambda>ans.
     finishRun w ans))))"

subsection \<open>The catch and finally blocks\<close>

definition isWebSocketClosureError :: "error \<Rightarrow> bool" where
  "isWebSocketClosureError e =
     (let message = toLowerCase (errorMessage e)
      in str_includes message ''websocket connection closed''
       \<or> str_includes message ''websocket is closed''
       \<or> str_includes message ''websocket error''
       \<or> str_includes message ''target closed'')"

text \<open>\<^verbatim>\<open>error instanceof Error ? error : new Error(String(error))\<close>\<close>

fun normalizeError :: "error \<Rightarrow> error" where
  "normalizeError (NonError s) = Error s"
| "normalizeError e = e"

definition windowClosed :: "error \<Rightarrow> error" where
  "windowClosed cause =
     ErrorWithCause
       ''Chrome window closed before Oracle finished. Please keep it open until completion.''
       cause"

definition catchBlock :: "error \<Rightarrow> BrowserRunResult step" where
  "catchBlock e st =
     (let normalizedError = normalizeError e;
          st1 = (if monitor st then call StopThinkingMonitor st else st);
          socketClosed = (connectionClosedUnexpectedly st1 \<or> isWebSocketClosureError normalizedError);
          st2 = st1\<lparr> connectionClosedUnexpectedly :=
                       connectionClosedUnexpectedly st1 \<or> socketClosed \<rparr>
      in if \<not> socketClosed then (Inl normalizedError, st2)
         else (Inl (windowClosed normalizedError), st2))"

text \<open>The finally block.  The disposer returned by registerTerminationHooks
  (chromeLifecycle.ts, not among the sources) is taken not to throw.\<close>

definition finallyBlock :: "world \<Rightarrow> ResolvedBrowserConfig \<Rightarrow> run_state \<Rightarrow> run_state" where
  "finallyBlock w cfg st =
     (let st1 = (if \<not> connectionClosedUnexpectedly st \<and> client st
                 then awaitIgnoringErrors w ClientClose st else st);
          st2 = (if hooks st1 then call RemoveTerminationHooks st1 else st1)
      in if \<not> keepBrowser cfg then
           let st3 = (if \<not> connectionClosedUnexpectedly st2
                      then awaitIgnoringErrors w ChromeKill st2 else st2)
           in awaitIgnoringErrors w RmUserDataDir st3
         else st2)"

definition runBrowserMode ::
  "world \<Rightarrow> sync_state \<Rightarrow> BrowserRunOptions \<Rightarrow> (error + BrowserRunResult) \<times> run_state" where
  "runBrowserMode w s options =
     (case enterRun w options (freshRun s) of
        (Inl e, st) \<Rightarrow> (Inl e, st)
      | (Inr (promptText, atts, cfg), st0) \<Rightarrow>
          (case tryBlock w cfg promptText atts st0 of
             (Inr result, st1) \<Rightarrow> (Inr result, finallyBlock w cfg st1)
           | (Inl e, st1) \<Rightarrow>
               (case catchBlock e st1 of
                  (outcome, st2) \<Rightarrow> (outcome, finallyBlock w cfg st2))))"

subsection \<open>The order of the page steps\<close>

text \<open>The page steps of section 4.4 of the design: navigation, block check, composer
  readiness, model selection, attachment upload, submission, response wait and
  transcript capture.\<close>

fun isPageStep :: "action \<Rightarrow> bool" where
  "isPageStep NavigateToChatGPT = True"
| "isPageStep EnsureNotBlocked = True"
| "isPageStep EnsurePromptReady = True"
| "isPageStep EnsureModelSelection = True"
| "isPageStep (UploadAttachmentFile p) = True"
| "isPageStep WaitForAttachmentCompletion = True"
| "isPageStep SubmitPrompt = True"
| "isPageStep WaitForAssistantResponse = True"
| "isPageStep (CaptureAssistantMarkdown k) = True"
| "isPageStep a = False"

definition uploadSteps :: "BrowserAttachment list \<Rightarrow> action list" where
  "uploadSteps atts =
     (if atts = [] then []
      else map (\<lambda>a. UploadAttachmentFile (path a)) atts @ [WaitForAttachmentCompletion])"

text \<open>The page steps of a run in which every capture attempt is made.\<close>

definition pageSteps :: "BrowserAttachment list \<Rightarrow> action list" where
  "pageSteps atts =
     [NavigateToChatGPT, EnsureNotBlocked, EnsurePromptReady] @ uploadSteps atts
     @ [SubmitPrompt, WaitForAssistantResponse,
        CaptureAssistantMarkdown 0, CaptureAssistantMarkdown 1, CaptureAssistantMarkdown 2]"

text \<open>The actions of the try block up to and including the response wait.\<close>

definition actionsThroughResponse ::
  "ResolvedBrowserConfig \<Rightarrow> BrowserAttachment list \<Rightarrow> action list" where
  "actionsThroughResponse cfg atts =
     [ConnectToChrome]
     @ (if \<not> headless cfg \<and> hideWindow cfg then [HideChromeWindow] else [])
     @ [EnableDomains, ClearBrowserCookies]
     @ (if cookieSync cfg then [SyncCookies] else [])
     @ [NavigateToChatGPT, EnsureNotBlocked, EnsurePromptReady]
     @ uploadSteps atts
     @ [SubmitPrompt, StartThinkingStatusMonitor, WaitForAssistantResponse]"

text \<open>
  A step follows a list of actions when it appends to the trace a prefix of the list,
  and the whole list when it returns normally.
\<close>

definition follows :: "'a step \<Rightarrow> action list \<Rightarrow> bool" where
  "follows f full \<longleftrightarrow>
     (\<forall>st r st'. f st = (r, st') \<longrightarrow>
        (\<exists>xs. trace st' = trace st @ xs \<and> prefix xs full \<and> ((\<exists>v. r = Inr v) \<longrightarrow> xs = full)))"

subsection \<open>Disconnect events\<close>

text \<open>
  The calls of the try block that are awaited once the disconnect listener is
  registered (line 76), every awaited call but connectToChrome itself: a disconnect
  event emitted while one of them is pending runs \<^verbatim>\<open>markConnectionLost\<close>.  A list of
  actions hears a disconnect when the world emits one during such a call in it.
\<close>

fun heard :: "action \<Rightarrow> bool" where
  "heard HideChromeWindow = True"
| "heard EnableDomains = True"
| "heard ClearBrowserCookies = True"
| "heard SyncCookies = True"
| "heard NavigateToChatGPT = True"
| "heard EnsureNotBlocked = True"
| "heard EnsurePromptReady = True"
| "heard (UploadAttachmentFile p) = True"
| "heard WaitForAttachmentCompletion = True"
| "heard SubmitPrompt = True"
| "heard WaitForAssistantResponse = True"
| "heard (CaptureAssistantMarkdown k) = True"
| "heard (RetryDelay k) = True"
| "heard a = False"

definition disconnectHeard :: "world \<Rightarrow> action list \<Rightarrow> bool" where
  "disconnectHeard w actions = list_ex (\<lambda>a. heard a \<and> disconnectDuring w a) actions"

text \<open>A state records the disconnects when its flag is set exactly if its trace hears
  one; a step keeps the record when, run with the listener registered, it leaves the
  listener registered and the disconnects recorded.\<close>

definition recorded :: "world \<Rightarrow> run_state \<Rightarrow> bool" where
  "recorded w st \<longleftrightarrow> (connectionClosedUnexpectedly st \<longleftrightarrow> disconnectHeard w (trace st))"

definition keeps :: "world \<Rightarrow> 'a step \<Rightarrow> bool" where
  "keeps w f \<longleftrightarrow>
     (\<forall>st r st'. f st = (r, st') \<longrightarrow> recorded w st \<and> listening st \<longrightarrow>
        recorded w st' \<and> listening st')"

text \<open>Whether capture attempt \<open>k\<close> fails: the evaluation throws, or yields no
  markdown or an empty one.\<close>

definition captureFails :: "world \<Rightarrow> nat \<Rightarrow> bool" where
  "captureFails w k =
     (case stepFailure w (CaptureAssistantMarkdown k) of
        Some e \<Rightarrow> True
      | None \<Rightarrow>
          (case copyEvaluation w k of
             None \<Rightarrow> True
           | Some v \<Rightarrow> (if success v then (case markdown v of None \<Rightarrow> True | Some md \<Rightarrow> md = [])
                        else True)))"

section \<open>The response observer (pageActions: buildResponseObserverExpression)\<close>

text \<open>
  The expression runs inside the page.  The page is given as a function of time in
  milliseconds: the conversation turns present, whether the stop button is in the
  document, the times at which the DOM mutates, and by how much a 400 ms timer that is
  started at a given time fires late (0 for an exact timer).  Everything but the timers
  takes no time.
\<close>

record conversation_turn =
  assistantTurn :: bool
  innerText :: string
  innerHTML :: string
  messageIdAttr :: "string option"
  testIdAttr :: "string option"

record page =
  turnsAt :: "nat \<Rightarrow> conversation_turn list"
  stopVisibleAt :: "nat \<Rightarrow> bool"
  mutationTimes :: "nat list"
  timerLag :: "nat \<Rightarrow> nat"












section \<open>Concrete inputs\<close>

text \<open>A cookie as Chrome stores it: expiry in microseconds since 1601, not secure,
  HTTP-only.\<close>

definition sessionCookie :: PuppeteerCookie where
  "sessionCookie =
     \<lparr> pc_name = Some ''sid'', pc_value = Some ''abc'', pc_domain = Some ''.chatgpt.com'',
       pc_path = None, pc_expires = Some (Num 13400000000000000),
       pc_Secure = Some False, pc_HttpOnly = Some True \<rparr>"

definition sessionCookieNormalized :: CookieParam where
  "sessionCookieNormalized =
     \<lparr> cp_name = ''sid'', cp_value = ''abc'', cp_url = None, cp_domain = Some ''.chatgpt.com'',
       cp_path = Some ''/'', cp_expires = Some (Num 1755526400),
       cp_secure = Some False, cp_httpOnly = Some True \<rparr>"

text \<open>A cookie whose expiry is a date in 2000 in Unix seconds, not secure, HTTP-only.\<close>

definition legacyCookie :: PuppeteerCookie where
  "legacyCookie =
     \<lparr> pc_name = Some ''pref'', pc_value = Some ''1'', pc_domain = Some ''.chatgpt.com'',
       pc_path = Some ''/'', pc_expires = Some (Num 946684800),
       pc_Secure = Some False, pc_HttpOnly = Some True \<rparr>"

definition legacyCookieNormalized :: CookieParam where
  "legacyCookieNormalized =
     \<lparr> cp_name = ''pref'', cp_value = ''1'', cp_url = None, cp_domain = Some ''.chatgpt.com'',
       cp_path = Some ''/'', cp_expires = Some (Num 946684800),
       cp_secure = Some False, cp_httpOnly = Some True \<rparr>"

text \<open>A cookie without an expiry.\<close>

definition plainCookie :: PuppeteerCookie where
  "plainCookie =
     \<lparr> pc_name = Some ''theme'', pc_value = Some ''dark'', pc_domain = None,
       pc_path = Some ''/'', pc_expires = None, pc_Secure = None, pc_HttpOnly = None \<rparr>"

definition plainCookieNormalized :: CookieParam where
  "plainCookieNormalized =
     \<lparr> cp_name = ''theme'', cp_value = ''dark'', cp_url = None, cp_domain = Some ''chatgpt.com'',
       cp_path = Some ''/'', cp_expires = None,
       cp_secure = Some True, cp_httpOnly = Some False \<rparr>"

text \<open>A credential store that loads and holds no cookies.\<close>

definition quietEnv :: cookie_env where
  "quietEnv =
     \<lparr> importResult = (\<lambda>n. Inr ExposesFunction), allowSqliteRebuild = None,
       spawnResult = SpawnError, getCookiesPromised = (\<lambda>u. Inr (Some [])),
       urlHostname = (\<lambda>u. Inr ''chatgpt.com'') \<rparr>"

definition hiThereAnswer :: AssistantAnswer where
  "hiThereAnswer =
     \<lparr> answer_text = ''Hi there'', answer_html = None, answer_turnId = None,
       answer_messageId = None \<rparr>"

text \<open>A world in which every call succeeds and the copy button yields the markdown.\<close>

definition calmWorld :: world where
  "calmWorld =
     \<lparr> stepFailure = (\<lambda>a. None), disconnectDuring = (\<lambda>a. False),
       defaultUrl = ''https://chatgpt.com/'', tmpDir = ''/tmp/oracle-browser-1'',
       launchedPid = Some 4242, launchedPort = 9222, domPresent = True,
       cookieEnv = quietEnv, cookieUrls = (\<lambda>u. [u]), setCookie = (\<lambda>c. Inr True),
       answer = hiThereAnswer,
       copyEvaluation = (\<lambda>n. Some \<lparr> success = True, markdown = Some ''Hi **there**'', status = None \<rparr>),
       estimateTokenCount = length, elapsedMs = 1000 \<rparr>"

definition noOverrides :: BrowserAutomationConfig where
  "noOverrides =
     \<lparr> o_chromeProfile = None, o_chromePath = None, o_url = None, o_timeoutMs = None,
       o_inputTimeoutMs = None, o_cookieSync = None, o_headless = None, o_keepBrowser = None,
       o_hideWindow = None, o_desiredModel = None, o_debug = None, o_allowCookieErrors = None \<rparr>"

definition helloOptions :: BrowserRunOptions where
  "helloOptions =
     \<lparr> prompt = Some ''Hello'', attachments = None,
       config = Some (noOverrides\<lparr> o_desiredModel := Some ''5.1 Instant'' \<rparr>), verbose = None \<rparr>"

definition blankOptions :: BrowserRunOptions where
  "blankOptions = \<lparr> prompt = Some ''  '', attachments = None, config = None, verbose = None \<rparr>"

text \<open>A store holding three cookies for the site, and a network domain that rejects
  the second.\<close>

definition thirdCookie :: PuppeteerCookie where
  "thirdCookie =
     \<lparr> pc_name = Some ''lang'', pc_value = Some ''en'', pc_domain = Some ''localhost'',
       pc_path = None, pc_expires = None, pc_Secure = None, pc_HttpOnly = None \<rparr>"

definition storeEnv :: cookie_env where
  "storeEnv = quietEnv\<lparr> getCookiesPromised :=
     (\<lambda>u. Inr (Some [sessionCookie, plainCookie, thirdCookie])) \<rparr>"

definition pickySetCookie :: "CookieParam \<Rightarrow> error + bool" where
  "pickySetCookie c = (if cp_name c = ''theme'' then Inl (Error ''Invalid cookie fields'') else Inr True)"

text \<open>A store whose native binding is missing, without and with the opt-in; the
  rebuild, when it runs, exits with code 1.\<close>

definition bindingError :: error where
  "bindingError = Error ''Could not locate the bindings file. Tried: node_sqlite3.node''"

definition brokenEnv :: cookie_env where
  "brokenEnv = quietEnv\<lparr> importResult := (\<lambda>n. Inl bindingError) \<rparr>"

definition brokenEnvOptIn :: cookie_env where
  "brokenEnvOptIn = brokenEnv\<lparr> allowSqliteRebuild := Some ''1'', spawnResult := Exit (Some 1) \<rparr>"

text \<open>The window is closed while the markdown is being copied: the connection emits
  \<^verbatim>\<open>disconnect\<close> during the first capture attempt and every attempt fails with the
  transport's error.\<close>

definition closedDuringCapture :: world where
  "closedDuringCapture =
     calmWorld\<lparr> stepFailure := (\<lambda>a. case a of
                     CaptureAssistantMarkdown k \<Rightarrow> Some (Error ''WebSocket is closed'')
                   | _ \<Rightarrow> None),
                disconnectDuring := (\<lambda>a. a = CaptureAssistantMarkdown 0) \<rparr>"

text \<open>The window is closed while the answer is awaited: the connection emits
  disconnect, and the evaluation fails with a message that matches no closure
  pattern.\<close>

definition closedDuringWait :: world where
  "closedDuringWait =
     calmWorld\<lparr> stepFailure := (\<lambda>a. if a = WaitForAssistantResponse
                                     then Some (Error ''Runtime.evaluate timed out'') else None),
                disconnectDuring := (\<lambda>a. a = WaitForAssistantResponse) \<rparr>"

text \<open>The response wait fails with a websocket-closure message; no disconnect event is
  emitted.\<close>

definition socketErrorDuringWait :: world where
  "socketErrorDuringWait =
     calmWorld\<lparr> stepFailure := (\<lambda>a. if a = WaitForAssistantResponse
                                     then Some (Error ''WebSocket connection closed'') else None) \<rparr>"

text \<open>The composer never becomes ready.\<close>

definition composerTimeout :: world where
  "composerTimeout =
     calmWorld\<lparr> stepFailure := (\<lambda>a. if a = EnsurePromptReady
                     then Some (Error ''Prompt textarea did not appear before timeout'') else None) \<rparr>"

text \<open>The copy button is missing.\<close>

definition copyMissing :: world where
  "copyMissing =
     calmWorld\<lparr> copyEvaluation :=
       (\<lambda>n. Some \<lparr> success = False, markdown = None, status = Some ''missing-button'' \<rparr>) \<rparr>"

definition keepOptions :: BrowserRunOptions where
  "keepOptions =
     \<lparr> prompt = Some ''Hello'', attachments = None,
       config = Some (noOverrides\<lparr> o_keepBrowser := Some True \<rparr>), verbose = None \<rparr>"

definition twoFiles :: BrowserRunOptions where
  "twoFiles =
     \<lparr> prompt = Some ''Hello'',
       attachments = Some [\<lparr> path = ''/repo/a.txt'', displayPath = ''a.txt'' \<rparr>,
                           \<lparr> path = ''/repo/b.txt'', displayPath = ''b.txt'' \<rparr>],
       config = None, verbose = None \<rparr>"









section \<open>Properties\<close>

subsection \<open>Model-option matching\<close>

lemma matchers_5_1_instant:
  "buildModelMatchersLiteral ''5.1 Instant'' =
     \<lparr> labelTokens = [''5.1 instant'', ''5.1instant'', ''51 instant'', ''chatgpt 5.1 instant'',
                       ''chatgpt 51 instant'', ''gpt 5.1 instant'', ''gpt 51 instant'', ''5.1'', ''instant''],
       testIdTokens = [''5.1-instant'', ''5.1instant'', ''51 instant'',
                       ''model-switcher-5.1-instant'', ''model-switcher-5.1instant''] \<rparr>"
  by code_simp

lemma label_match_spaced:
  "list_ex (\<lambda>token. let normalizedToken = normalizeText token
                     in normalizedToken \<noteq> [] \<and> str_includes (normalizeText ''ChatGPT 5.1 Instant'') normalizedToken)
     (labelTokens (buildModelMatchersLiteral ''5.1 Instant''))"
  by code_simp

lemma label_match_collapsed:
  "list_ex (\<lambda>token. let normalizedToken = normalizeText token
                     in normalizedToken \<noteq> [] \<and> str_includes (normalizeText ''5.1Instant'') normalizedToken)
     (labelTokens (buildModelMatchersLiteral ''5.1 Instant''))"
  by code_simp

lemma testid_match:
  "toLowerCase ''chatgpt-5.1-instant'' \<noteq> [] \<and>
   list_ex (\<lambda>i. str_includes (toLowerCase ''chatgpt-5.1-instant'') i)
     (testIdTokens (buildModelMatchersLiteral ''5.1 Instant''))"
  by code_simp


text \<open>Lower-casing is idempotent and leaves whitespace alone, so it commutes with
  trimming.\<close>

lemma toLowerChar_idem: "toLowerChar (toLowerChar c) = toLowerChar c"
proof -
  have small: "of_char c < (256 :: nat)"
    by simp
  show ?thesis
    using small unfolding toLowerChar_def charCode_def Let_def
    by (auto simp: of_char_of)
qed

lemma toLowerCase_idem: "toLowerCase (toLowerCase s) = toLowerCase s"
  by (simp add: toLowerCase_def toLowerChar_idem)

lemma isWhitespace_toLowerChar: "isWhitespace (toLowerChar c) = isWhitespace c"
proof -
  have small: "of_char c < (256 :: nat)"
    by simp
  show ?thesis
    using small unfolding toLowerChar_def charCode_def Let_def isWhitespace_def
    by (auto simp: of_char_of)
qed

lemma toLowerCase_trim: "toLowerCase (trim s) = trim (toLowerCase s)"
proof -
  have comp: "isWhitespace \<circ> toLowerChar = isWhitespace"
    by (rule ext) (simp add: isWhitespace_toLowerChar)
  show ?thesis
    unfolding trim_def toLowerCase_def
    by (simp add: dropWhile_map rev_map comp)
qed

lemma base_toLowerCase:
  "toLowerCase (trim (toLowerCase target)) = toLowerCase (trim target)"
  by (simp add: toLowerCase_trim [symmetric] toLowerCase_idem)

lemma matchers_toLowerCase:
  "buildModelMatchersLiteral (toLowerCase target) = buildModelMatchersLiteral target"
  unfolding buildModelMatchersLiteral_def by (simp only: base_toLowerCase)

lemma normalizeText_toLowerCase: "normalizeText (toLowerCase v) = normalizeText v"
  by (simp add: normalizeText_def toLowerCase_idem)

text \<open>A run of characters of the class is replaced as one character of the class is.\<close>

lemma replaceRuns_run:
  assumes "sep \<noteq> []" and "\<forall>c\<in>set sep. P c" and "P d"
  shows "replaceRuns P r (xs @ sep @ ys) = replaceRuns P r (xs @ d # ys)"
proof (induction "length xs" arbitrary: xs rule: less_induct)
  case less
  have drop_sep: "dropWhile P (sep @ ys) = dropWhile P ys"
    using assms(2) by (simp add: dropWhile_append2)
  show ?case
  proof (cases xs)
    case Nil
    obtain s ss where sep: "sep = s # ss"
      using assms(1) by (cases sep) auto
    have "dropWhile P (ss @ ys) = dropWhile P ys"
      using assms(2) sep by (simp add: dropWhile_append2)
    then show ?thesis
      using Nil sep assms(2) assms(3) by simp
  next
    case (Cons x xs')
    show ?thesis
    proof (cases "P x")
      case False
      have "replaceRuns P r (xs' @ sep @ ys) = replaceRuns P r (xs' @ d # ys)"
        using less [of xs'] Cons by simp
      then show ?thesis
        using Cons False by simp
    next
      case True
      show ?thesis
      proof (cases "\<forall>c\<in>set xs'. P c")
        case True
        have "dropWhile P (xs' @ sep @ ys) = dropWhile P ys"
          using True drop_sep by (simp add: dropWhile_append2)
        moreover have "dropWhile P (xs' @ d # ys) = dropWhile P ys"
          using True assms(3) by (simp add: dropWhile_append2)
        ultimately show ?thesis
          using Cons \<open>P x\<close> by simp
      next
        case False
        then obtain c where c: "c \<in> set xs'" "\<not> P c"
          by blast
        have one: "dropWhile P (xs' @ sep @ ys) = dropWhile P xs' @ sep @ ys"
          using c by (rule dropWhile_append1)
        have two: "dropWhile P (xs' @ d # ys) = dropWhile P xs' @ d # ys"
          using c by (rule dropWhile_append1)
        have "length (dropWhile P xs') < length xs"
          using Cons length_dropWhile_le [of P xs'] by simp
        then have "replaceRuns P r (dropWhile P xs' @ sep @ ys)
                   = replaceRuns P r (dropWhile P xs' @ d # ys)"
          by (rule less)
        then show ?thesis
          using Cons \<open>P x\<close> one two by simp
      qed
    qed
  qed
qed

lemma space_is_separator: "toLowerChar CHR '' '' = CHR '' '' \<and> \<not> isLowerAlnum CHR '' ''"
  by code_simp

lemma normalizeText_run:
  assumes "sep \<noteq> []" and "\<forall>c\<in>set sep. isSeparator c"
  shows "normalizeText (xs @ sep @ ys) = normalizeText (xs @ '' '' @ ys)"
proof -
  have nonempty: "toLowerCase sep \<noteq> []"
    using assms(1) by (simp add: toLowerCase_def)
  have all: "\<forall>c\<in>set (toLowerCase sep). \<not> isLowerAlnum c"
    using assms(2) by (simp add: toLowerCase_def isSeparator_def)
  have "replaceRuns (\<lambda>c. \<not> isLowerAlnum c) '' '' (toLowerCase xs @ toLowerCase sep @ toLowerCase ys)
        = replaceRuns (\<lambda>c. \<not> isLowerAlnum c) '' '' (toLowerCase xs @ CHR '' '' # toLowerCase ys)"
    using nonempty all space_is_separator by (intro replaceRuns_run) simp_all
  moreover have "toLowerCase (xs @ sep @ ys) = toLowerCase xs @ toLowerCase sep @ toLowerCase ys"
    by (simp add: toLowerCase_def)
  moreover have "toLowerCase (xs @ '' '' @ ys) = toLowerCase xs @ CHR '' '' # toLowerCase ys"
    using space_is_separator by (simp add: toLowerCase_def)
  ultimately show ?thesis
    unfolding normalizeText_def by simp
qed

text \<open>
  C8, as stated, fails: the matching is sensitive to whitespace and punctuation inside
  a word.  For the target model 5.1 Instant an entry labelled Instant is accepted and
  entries labelled Inst ant or Inst-ant are rejected; for the target ab the label ab is
  accepted and the label a b rejected; a test id chatgpt_5.1_instant (underscores for
  hyphens) is not accepted by itself.
\<close>

theorem separator_inside_word_rejected:
  "optionMatches (buildModelMatchersLiteral ''5.1 Instant'')
     \<lparr> dataTestid = None, textContent = ''Instant'' \<rparr>
   \<and> \<not> optionMatches (buildModelMatchersLiteral ''5.1 Instant'')
       \<lparr> dataTestid = None, textContent = ''Inst ant'' \<rparr>
   \<and> \<not> optionMatches (buildModelMatchersLiteral ''5.1 Instant'')
       \<lparr> dataTestid = None, textContent = ''Inst-ant'' \<rparr>
   \<and> optionMatches (buildModelMatchersLiteral ''ab'')
       \<lparr> dataTestid = None, textContent = ''ab'' \<rparr>
   \<and> \<not> optionMatches (buildModelMatchersLiteral ''ab'')
       \<lparr> dataTestid = None, textContent = ''a b'' \<rparr>
   \<and> \<not> optionMatches (buildModelMatchersLiteral ''5.1 Instant'')
       \<lparr> dataTestid = Some ''chatgpt_5.1_instant'', textContent = [] \<rparr>"
  by code_simp

text \<open>
  C8, amended.  Model-option matching ignores the case of letters in the target model,
  in a label and in a test id: lower-casing any of them does not change whether an
  entry matches.  In a label every non-empty run of separators (characters other than
  letters a-z and digits, whitespace and punctuation alike) counts as one space.  For
  the target model 5.1 Instant the matcher accepts a menu entry labelled ChatGPT 5.1
  Instant, an entry labelled 5.1Instant (whatever their test ids), and an entry whose
  data-testid is chatgpt-5.1-instant (whatever its label).
\<close>

theorem model_matching_5_1_instant:
  "optionMatches (buildModelMatchersLiteral (toLowerCase target)) opt
     = optionMatches (buildModelMatchersLiteral target) opt
   \<and> optionMatches m \<lparr> dataTestid = tid, textContent = toLowerCase l \<rparr>
       = optionMatches m \<lparr> dataTestid = tid, textContent = l \<rparr>
   \<and> optionMatches m \<lparr> dataTestid = Some (toLowerCase t), textContent = l \<rparr>
       = optionMatches m \<lparr> dataTestid = Some t, textContent = l \<rparr>
   \<and> (sep \<noteq> [] \<and> (\<forall>c\<in>set sep. isSeparator c) \<longrightarrow>
        optionMatches m \<lparr> dataTestid = tid, textContent = xs @ sep @ ys \<rparr>
          = optionMatches m \<lparr> dataTestid = tid, textContent = xs @ '' '' @ ys \<rparr>)
   \<and> optionMatches (buildModelMatchersLiteral ''5.1 Instant'')
       \<lparr> dataTestid = tid, textContent = ''ChatGPT 5.1 Instant'' \<rparr>
   \<and> optionMatches (buildModelMatchersLiteral ''5.1 Instant'')
       \<lparr> dataTestid = tid, textContent = ''5.1Instant'' \<rparr>
   \<and> optionMatches (buildModelMatchersLiteral ''5.1 Instant'')
       \<lparr> dataTestid = Some ''chatgpt-5.1-instant'', textContent = label \<rparr>"
proof (intro conjI impI)
  show "optionMatches (buildModelMatchersLiteral (toLowerCase target)) opt
          = optionMatches (buildModelMatchersLiteral target) opt"
    by (simp only: matchers_toLowerCase)
  show "optionMatches m \<lparr> dataTestid = tid, textContent = toLowerCase l \<rparr>
          = optionMatches m \<lparr> dataTestid = tid, textContent = l \<rparr>"
    unfolding optionMatches_def by (simp add: normalizeText_toLowerCase)
  show "optionMatches m \<lparr> dataTestid = Some (toLowerCase t), textContent = l \<rparr>
          = optionMatches m \<lparr> dataTestid = Some t, textContent = l \<rparr>"
    unfolding optionMatches_def by (simp add: toLowerCase_idem)
  show "optionMatches m \<lparr> dataTestid = tid, textContent = xs @ sep @ ys \<rparr>
          = optionMatches m \<lparr> dataTestid = tid, textContent = xs @ '' '' @ ys \<rparr>"
    if "sep \<noteq> [] \<and> (\<forall>c\<in>set sep. isSeparator c)"
  proof -
    have "normalizeText (xs @ sep @ ys) = normalizeText (xs @ '' '' @ ys)"
      using that by (intro normalizeText_run) simp_all
    then show ?thesis
      unfolding optionMatches_def by simp
  qed
  show "optionMatches (buildModelMatchersLiteral ''5.1 Instant'')
          \<lparr> dataTestid = tid, textContent = ''ChatGPT 5.1 Instant'' \<rparr>"
    using label_match_spaced unfolding optionMatches_def Let_def by simp
  show "optionMatches (buildModelMatchersLiteral ''5.1 Instant'')
          \<lparr> dataTestid = tid, textContent = ''5.1Instant'' \<rparr>"
    using label_match_collapsed unfolding optionMatches_def Let_def by simp
  show "optionMatches (buildModelMatchersLiteral ''5.1 Instant'')
          \<lparr> dataTestid = Some ''chatgpt-5.1-instant'', textContent = label \<rparr>"
    using testid_match unfolding optionMatches_def Let_def by simp
qed

text \<open>The label CHATGPT -- 5.1 INSTANT differs from ChatGPT 5.1 Instant in case and in
  its separators only, and is accepted with it, also for the target 5.1 INSTANT.\<close>

theorem model_matching_5_1_instant_witness:
  "'' -- '' \<noteq> [] \<and> list_all isSeparator '' -- ''
   \<and> optionMatches (buildModelMatchersLiteral ''5.1 INSTANT'')
       \<lparr> dataTestid = None, textContent = ''CHATGPT -- 5.1 INSTANT'' \<rparr>"
proof -
  have sep: "'' -- '' \<noteq> [] \<and> (\<forall>c\<in>set '' -- ''. isSeparator c)"
    by code_simp
  have lower: "toLowerCase ''5.1 INSTANT'' = toLowerCase ''5.1 Instant''
      \<and> toLowerCase ''CHATGPT 5.1 INSTANT'' = toLowerCase ''ChatGPT 5.1 Instant''"
    by code_simp
  note inst = model_matching_5_1_instant
    [where m = "buildModelMatchersLiteral ''5.1 Instant''" and tid = None]
  have a: "optionMatches (buildModelMatchersLiteral ''5.1 Instant'')
            \<lparr> dataTestid = None, textContent = ''ChatGPT 5.1 Instant'' \<rparr>"
    using inst by blast
  have b: "optionMatches (buildModelMatchersLiteral ''5.1 Instant'')
            \<lparr> dataTestid = None, textContent = toLowerCase ''ChatGPT 5.1 Instant'' \<rparr>"
    using a inst [where l = "''ChatGPT 5.1 Instant''"] by blast
  have c: "optionMatches (buildModelMatchersLiteral ''5.1 Instant'')
            \<lparr> dataTestid = None, textContent = ''CHATGPT 5.1 INSTANT'' \<rparr>"
    using b lower inst [where l = "''CHATGPT 5.1 INSTANT''"] by simp
  have d: "optionMatches (buildModelMatchersLiteral ''5.1 Instant'')
            \<lparr> dataTestid = None, textContent = ''CHATGPT'' @ '' -- '' @ ''5.1 INSTANT'' \<rparr>"
    using c sep inst [where sep = "'' -- ''" and xs = "''CHATGPT''" and ys = "''5.1 INSTANT''"]
    by simp
  have e: "optionMatches (buildModelMatchersLiteral (toLowerCase ''5.1 Instant''))
            \<lparr> dataTestid = None, textContent = ''CHATGPT -- 5.1 INSTANT'' \<rparr>"
    using d inst [where target = "''5.1 Instant''"
                   and opt = "\<lparr> dataTestid = None, textContent = ''CHATGPT -- 5.1 INSTANT'' \<rparr>"]
    by simp
  have f: "optionMatches (buildModelMatchersLiteral ''5.1 INSTANT'')
            \<lparr> dataTestid = None, textContent = ''CHATGPT -- 5.1 INSTANT'' \<rparr>"
    using e lower inst [where target = "''5.1 INSTANT''"
                   and opt = "\<lparr> dataTestid = None, textContent = ''CHATGPT -- 5.1 INSTANT'' \<rparr>"]
    by simp
  have "list_all isSeparator '' -- ''"
    using sep by (simp add: list_all_iff)
  then show ?thesis
    using f by simp
qed

subsection \<open>The prompt check\<close>

lemma trim_blank: "\<forall>c\<in>set p. isWhitespace c \<Longrightarrow> trim p = []"
proof -
  assume "\<forall>c\<in>set p. isWhitespace c"
  then have blank: "dropWhile isWhitespace p = []"
    by (simp add: dropWhile_eq_Nil_conv)
  show ?thesis
    unfolding trim_def blank by simp
qed

text \<open>
  C10.  When the prompt is absent, empty or only whitespace, runBrowserMode fails with the
  error "Prompt text is required when using browser mode." and has performed no
  action: no temporary profile directory was created and no browser was launched.
\<close>

theorem prompt_required:
  assumes "case prompt options of None \<Rightarrow> True | Some p \<Rightarrow> \<forall>c\<in>set p. isWhitespace c"
  shows "fst (runBrowserMode w s options)
           = Inl (Error ''Prompt text is required when using browser mode.'')
         \<and> trace (snd (runBrowserMode w s options)) = []"
  using assms
  by (auto simp: runBrowserMode_def enterRun_def throw_def promptRequired_def freshRun_def
        trim_blank split: option.splits)

theorem prompt_required_witness:
  "fst (runBrowserMode calmWorld initialSyncState blankOptions)
     = Inl (Error ''Prompt text is required when using browser mode.'')
   \<and> trace (snd (runBrowserMode calmWorld initialSyncState blankOptions)) = []"
  using prompt_required [of blankOptions calmWorld initialSyncState]
  by (simp add: blankOptions_def isWhitespace_def charCode_def)

subsection \<open>Cookie normalisation\<close>

lemma mathRound_of_int: "mathRound (of_int k) = of_int k"
  unfolding mathRound_def by (simp add: floor_eq_iff)

lemma normalizeExpiration_integral:
  "normalizeExpiration v = Some (Num e) \<Longrightarrow> \<exists>k. e = of_int k"
  by (cases v rule: normalizeExpiration.cases) (auto simp: mathRound_def split: if_splits)

text \<open>What a second pass of the coercion does to a value the first pass produced, as
  far as the range up to 1000000000 goes.\<close>

lemma normalizeExpiration_again:
  assumes "normalizeExpiration v = Some (Num e)"
  shows "0 < e \<and> e \<le> 1000000000 \<longrightarrow> normalizeExpiration (Some (Num e)) = Some (Num e)"
    and "e \<le> 0 \<longrightarrow> normalizeExpiration (Some (Num e)) = None"
proof -
  obtain k where k: "e = of_int k"
    using normalizeExpiration_integral [OF assms] by blast
  have same: "mathRound e = e"
    by (simp add: k mathRound_of_int)
  show "0 < e \<and> e \<le> 1000000000 \<longrightarrow> normalizeExpiration (Some (Num e)) = Some (Num e)"
    using same by auto
  show "e \<le> 0 \<longrightarrow> normalizeExpiration (Some (Num e)) = None"
    by auto
qed

text \<open>
  C2, as stated, fails.  A cookie that is not secure and is HTTP-only is normalised to
  secure = false, httpOnly = true; normalising the result again gives secure = true,
  httpOnly = false, since a normalised cookie carries the two in lower-case fields that
  normalizeCookie does not read.  The expiration coercion turns 2/5 into 0, and 0 into
  undefined.
\<close>

theorem renormalizeCookie_changes_flags:
  "normalizeCookie legacyCookie ''chatgpt.com'' = Some legacyCookieNormalized
   \<and> cp_secure legacyCookieNormalized = Some False
   \<and> cp_httpOnly legacyCookieNormalized = Some True
   \<and> renormalizeCookie legacyCookieNormalized ''chatgpt.com''
       = Some (legacyCookieNormalized\<lparr> cp_secure := Some True, cp_httpOnly := Some False \<rparr>)
   \<and> normalizeExpiration (Some (Num (2 / 5))) = Some (Num 0)
   \<and> normalizeExpiration (Some (Num 0)) = None"
  by code_simp

text \<open>
  C2, amended.  Normalising a normalised cookie again (with any fallback host) yields
  the same name, value, domain and path; secure and httpOnly come back as the defaults
  true and false; an absent expires stays absent, an expires value between 1 and
  1000000000 comes back unchanged, and one of 0 or less becomes absent.  In particular
  the expiration coercion returns unchanged a value between 1 and 1000000000 that it
  produced.  Nothing is said of values above 1000000000.
\<close>

theorem renormalizeCookie_fields:
  assumes "normalizeCookie cookie host = Some n"
  shows "\<exists>n'. renormalizeCookie n host' = Some n'
           \<and> cp_name n' = cp_name n \<and> cp_value n' = cp_value n
           \<and> cp_domain n' = cp_domain n \<and> cp_path n' = cp_path n
           \<and> cp_secure n' = Some True \<and> cp_httpOnly n' = Some False
           \<and> (cp_expires n = None \<longrightarrow> cp_expires n' = None)
           \<and> (\<forall>e. cp_expires n = Some (Num e) \<and> 0 < e \<and> e \<le> 1000000000 \<longrightarrow>
                  cp_expires n' = Some (Num e)
                  \<and> normalizeExpiration (Some (Num e)) = Some (Num e))
           \<and> (\<forall>e. cp_expires n = Some (Num e) \<and> e \<le> 0 \<longrightarrow> cp_expires n' = None)"
proof -
  obtain nm where nm: "pc_name cookie = Some nm" "nm \<noteq> []"
    using assms by (auto simp: normalizeCookie_def split: option.splits if_splits)
  have n: "n = \<lparr> cp_name = nm,
                  cp_value = (case pc_value cookie of None \<Rightarrow> [] | Some v \<Rightarrow> v),
                  cp_url = None,
                  cp_domain = Some (case pc_domain cookie of None \<Rightarrow> host | Some d \<Rightarrow> d),
                  cp_path = Some (case pc_path cookie of None \<Rightarrow> ''/'' | Some p \<Rightarrow> p),
                  cp_expires = normalizeExpiration (pc_expires cookie),
                  cp_secure = Some (case pc_Secure cookie of Some b \<Rightarrow> b | None \<Rightarrow> True),
                  cp_httpOnly = Some (case pc_HttpOnly cookie of Some b \<Rightarrow> b | None \<Rightarrow> False) \<rparr>"
    using assms nm by (auto simp: normalizeCookie_def Let_def split: option.splits)
  have ex: "cp_expires n = normalizeExpiration (pc_expires cookie)"
    by (simp add: n)
  define n' where "n' = n\<lparr> cp_expires := normalizeExpiration (cp_expires n),
                             cp_secure := Some True, cp_httpOnly := Some False \<rparr>"
  have again: "renormalizeCookie n host' = Some n'"
    using nm
    by (simp add: renormalizeCookie_def normalizeCookie_def asPuppeteerCookie_def n n'_def Let_def)
  have kept: "cp_name n' = cp_name n" "cp_value n' = cp_value n" "cp_domain n' = cp_domain n"
      "cp_path n' = cp_path n" "cp_secure n' = Some True" "cp_httpOnly n' = Some False"
      "cp_expires n' = normalizeExpiration (cp_expires n)"
    by (simp_all add: n'_def)
  have absent: "cp_expires n = None \<longrightarrow> cp_expires n' = None"
    by (simp add: kept(7))
  have inrange: "\<forall>e. cp_expires n = Some (Num e) \<and> 0 < e \<and> e \<le> 1000000000 \<longrightarrow>
                  cp_expires n' = Some (Num e)
                  \<and> normalizeExpiration (Some (Num e)) = Some (Num e)"
  proof (intro allI impI)
    fix e assume e: "cp_expires n = Some (Num e) \<and> 0 < e \<and> e \<le> 1000000000"
    then have "normalizeExpiration (pc_expires cookie) = Some (Num e)"
      using ex by simp
    from normalizeExpiration_again(1) [OF this] e
    have "normalizeExpiration (Some (Num e)) = Some (Num e)" by blast
    then show "cp_expires n' = Some (Num e)
                  \<and> normalizeExpiration (Some (Num e)) = Some (Num e)"
      using e by (simp add: kept(7))
  qed
  have nonpos: "\<forall>e. cp_expires n = Some (Num e) \<and> e \<le> 0 \<longrightarrow> cp_expires n' = None"
    by (auto simp: kept(7))
  show ?thesis
  proof (rule exI [of _ n'], intro conjI)
    show "renormalizeCookie n host' = Some n'" by (rule again)
    show "cp_name n' = cp_name n" by (rule kept(1))
    show "cp_value n' = cp_value n" by (rule kept(2))
    show "cp_domain n' = cp_domain n" by (rule kept(3))
    show "cp_path n' = cp_path n" by (rule kept(4))
    show "cp_secure n' = Some True" by (rule kept(5))
    show "cp_httpOnly n' = Some False" by (rule kept(6))
    show "cp_expires n = None \<longrightarrow> cp_expires n' = None" by (rule absent)
    show "\<forall>e. cp_expires n = Some (Num e) \<and> 0 < e \<and> e \<le> 1000000000 \<longrightarrow>
                  cp_expires n' = Some (Num e)
                  \<and> normalizeExpiration (Some (Num e)) = Some (Num e)" by (rule inrange)
    show "\<forall>e. cp_expires n = Some (Num e) \<and> e \<le> 0 \<longrightarrow> cp_expires n' = None"
      by (rule nonpos)
  qed
qed

theorem renormalizeCookie_fields_witness:
  "normalizeCookie legacyCookie ''chatgpt.com'' = Some legacyCookieNormalized
   \<and> cp_expires legacyCookieNormalized = Some (Num 946684800)
   \<and> (\<exists>n'. renormalizeCookie legacyCookieNormalized ''example.org'' = Some n'
           \<and> cp_name n' = ''pref'' \<and> cp_value n' = ''1''
           \<and> cp_domain n' = Some ''.chatgpt.com'' \<and> cp_path n' = Some ''/''
           \<and> cp_secure n' = Some True \<and> cp_httpOnly n' = Some False
           \<and> cp_expires n' = Some (Num 946684800))
   \<and> normalizeExpiration (Some (Num 946684800)) = Some (Num 946684800)
   \<and> normalizeCookie plainCookie ''chatgpt.com'' = Some plainCookieNormalized
   \<and> (\<exists>n'. renormalizeCookie plainCookieNormalized ''example.org'' = Some n'
           \<and> cp_expires n' = None)"
proof -
  have h: "normalizeCookie legacyCookie ''chatgpt.com'' = Some legacyCookieNormalized"
    by code_simp
  have e: "cp_expires legacyCookieNormalized = Some (Num 946684800)"
    by (simp add: legacyCookieNormalized_def)
  have g: "normalizeCookie plainCookie ''chatgpt.com'' = Some plainCookieNormalized"
    by (simp add: normalizeCookie_def plainCookie_def plainCookieNormalized_def)
  have a: "cp_expires plainCookieNormalized = None"
    by (simp add: plainCookieNormalized_def)
  from renormalizeCookie_fields [OF h, of "''example.org''"] e
  have first: "(\<exists>n'. renormalizeCookie legacyCookieNormalized ''example.org'' = Some n'
           \<and> cp_name n' = ''pref'' \<and> cp_value n' = ''1''
           \<and> cp_domain n' = Some ''.chatgpt.com'' \<and> cp_path n' = Some ''/''
           \<and> cp_secure n' = Some True \<and> cp_httpOnly n' = Some False
           \<and> cp_expires n' = Some (Num 946684800))
         \<and> normalizeExpiration (Some (Num 946684800)) = Some (Num 946684800)"
    by (auto simp: legacyCookieNormalized_def)
  from renormalizeCookie_fields [OF g, of "''example.org''"] a
  have second: "\<exists>n'. renormalizeCookie plainCookieNormalized ''example.org'' = Some n'
           \<and> cp_expires n' = None"
    by auto
  show ?thesis
    using h e first g second by blast
qed

subsection \<open>Applying cookies\<close>

lemma applyCookies_acc:
  "applyCookies send u cookies acc =
     acc\<lparr> applied := applied acc
                + length (filter (\<lambda>c. send (cookieWithUrl u c) = Inr True) cookies),
          logged := logged acc @ concat (map (setCookieLine send u) cookies),
          setCookieCalls := setCookieCalls acc @ map (cookieWithUrl u) cookies \<rparr>"
proof (induction cookies arbitrary: acc)
  case Nil
  show ?case by simp
next
  case (Cons c cs)
  show ?case
    by (cases "send (cookieWithUrl u c)")
       (auto simp: Cons.IH Let_def setCookieLine_def)
qed

lemma syncCookiesWith_read:
  "syncCookiesWith send u (Inr cookies) allowErrors =
     (Inr (length (filter (\<lambda>c. send (cookieWithUrl u c) = Inr True) cookies)),
      \<lparr> applied = length (filter (\<lambda>c. send (cookieWithUrl u c) = Inr True) cookies),
        logged = concat (map (setCookieLine send u) cookies),
        setCookieCalls = map (cookieWithUrl u) cookies \<rparr>)"
  by (simp add: syncCookiesWith_def applyCookies_acc noCookiesApplied_def Let_def)

lemma syncCookiesWith_failed:
  "syncCookiesWith send u (Inl e) False =
     (Inl (if isChromeCookieSyncError e then e else ChromeCookieSyncError (errorMessage e)),
      noCookiesApplied)"
  "syncCookiesWith send u (Inl e) True =
     (Inr 0, noCookiesApplied\<lparr> logged :=
        [''Cookie sync failed (continuing with override): '' @ errorMessage e] \<rparr>)"
  by (simp_all add: syncCookiesWith_def Let_def)

text \<open>
  C5.  When the cookies are read, syncCookies calls Network.setCookie once per cookie,
  in order, returns the number of calls that reported success, and logs one line for
  each call that threw without stopping.  When reading (or loading the module) fails,
  the call throws a ChromeCookieSyncError if allowErrors is false, and with allowErrors
  it logs the warning, makes no setCookie call and returns 0.
\<close>

theorem syncCookies_outcomes:
  "(readChromeCookies env st urls = (Inr cookies, st') \<longrightarrow>
      fst (syncCookies env st send u urls allowErrors) =
        (Inr (length (filter (\<lambda>c. send (cookieWithUrl u c) = Inr True) cookies)),
         \<lparr> applied = length (filter (\<lambda>c. send (cookieWithUrl u c) = Inr True) cookies),
           logged = concat (map (setCookieLine send u) cookies),
           setCookieCalls = map (cookieWithUrl u) cookies \<rparr>))
   \<and> (readChromeCookies envF stF urlsF = (Inl e, stF') \<longrightarrow>
        (\<exists>m. fst (syncCookies envF stF send u urlsF False)
                = (Inl (ChromeCookieSyncError m), noCookiesApplied))
        \<and> fst (syncCookies envF stF send u urlsF True) =
            (Inr 0, noCookiesApplied\<lparr> logged :=
               [''Cookie sync failed (continuing with override): '' @ errorMessage e] \<rparr>))"
proof (intro conjI impI)
  assume "readChromeCookies env st urls = (Inr cookies, st')"
  then show "fst (syncCookies env st send u urls allowErrors) =
        (Inr (length (filter (\<lambda>c. send (cookieWithUrl u c) = Inr True) cookies)),
         \<lparr> applied = length (filter (\<lambda>c. send (cookieWithUrl u c) = Inr True) cookies),
           logged = concat (map (setCookieLine send u) cookies),
           setCookieCalls = map (cookieWithUrl u) cookies \<rparr>)"
    by (simp add: syncCookies_def syncCookiesWith_read)
next
  assume failed: "readChromeCookies envF stF urlsF = (Inl e, stF')"
  show "\<exists>m. fst (syncCookies envF stF send u urlsF False)
                = (Inl (ChromeCookieSyncError m), noCookiesApplied)"
    using failed
    by (cases e) (simp_all add: syncCookies_def syncCookiesWith_failed)
  show "fst (syncCookies envF stF send u urlsF True) =
            (Inr 0, noCookiesApplied\<lparr> logged :=
               [''Cookie sync failed (continuing with override): '' @ errorMessage e] \<rparr>)"
    using failed by (simp add: syncCookies_def syncCookiesWith_failed)
qed

lemma read_storeEnv:
  "readChromeCookies storeEnv initialSyncState [''https://chatgpt.com/''] =
     (Inr [sessionCookieNormalized, plainCookieNormalized,
           \<lparr> cp_name = ''lang'', cp_value = ''en'', cp_url = None, cp_domain = Some ''localhost'',
             cp_path = Some ''/'', cp_expires = None, cp_secure = Some True,
             cp_httpOnly = Some False \<rparr>],
      initialSyncState\<lparr> importCalls := 1 \<rparr>)"
  by code_simp

lemma read_brokenEnv:
  "readChromeCookies brokenEnv initialSyncState [''https://chatgpt.com/''] =
     (Inl loadFailed,
      \<lparr> attemptedSqliteRebuild = True, importCalls = 1, rebuildAttempts = 1, spawnCalls = 0 \<rparr>)"
  by code_simp

theorem syncCookies_outcomes_witness:
  "fst (fst (syncCookies storeEnv initialSyncState pickySetCookie ''https://chatgpt.com/''
          [''https://chatgpt.com/''] False)) = Inr 2
   \<and> logged (snd (fst (syncCookies storeEnv initialSyncState pickySetCookie ''https://chatgpt.com/''
          [''https://chatgpt.com/''] False)))
       = [''Failed to set cookie theme: Invalid cookie fields'']
   \<and> length (setCookieCalls (snd (fst (syncCookies storeEnv initialSyncState pickySetCookie
          ''https://chatgpt.com/'' [''https://chatgpt.com/''] False)))) = 3
   \<and> (\<exists>m. fst (syncCookies brokenEnv initialSyncState pickySetCookie ''https://chatgpt.com/''
              [''https://chatgpt.com/''] False)
            = (Inl (ChromeCookieSyncError m), noCookiesApplied))
   \<and> fst (fst (syncCookies brokenEnv initialSyncState pickySetCookie ''https://chatgpt.com/''
          [''https://chatgpt.com/''] True)) = Inr 0"
  using syncCookies_outcomes [of storeEnv initialSyncState "[''https://chatgpt.com/'']" _ _
          pickySetCookie "''https://chatgpt.com/''" False
          brokenEnv initialSyncState "[''https://chatgpt.com/'']" loadFailed]
        read_storeEnv read_brokenEnv
  by (simp add: setCookieLine_def pickySetCookie_def cookieWithUrl_def startsWith_def
        sessionCookieNormalized_def plainCookieNormalized_def)



subsection \<open>The one-time rebuild\<close>

lemma attempt_after:
  "attemptedSqliteRebuild (snd (attemptSqliteRebuild env st))"
  "fst (attemptSqliteRebuild env st) \<Longrightarrow> \<not> attemptedSqliteRebuild st"
  "rebuildAttempts (snd (attemptSqliteRebuild env st))
     = rebuildAttempts st + (if attemptedSqliteRebuild st then 0 else 1)"
  "spawnCalls st \<le> spawnCalls (snd (attemptSqliteRebuild env st))"
  "spawnCalls (snd (attemptSqliteRebuild env st))
     \<le> spawnCalls st + (if attemptedSqliteRebuild st then 0 else 1)"
  "allowSqliteRebuild env \<noteq> Some ''1'' \<Longrightarrow>
     spawnCalls (snd (attemptSqliteRebuild env st)) = spawnCalls st"
  "importCalls (snd (attemptSqliteRebuild env st)) = importCalls st"
  by (auto simp: attemptSqliteRebuild_def Let_def split: spawn_outcome.splits)

text \<open>Once the flag is set, a call imports once and neither rebuilds nor recurses.\<close>

lemma load_after_attempt:
  assumes "attemptedSqliteRebuild st"
  shows "loadChromeCookiesModule env st =
           (case importResult env (importCalls st) of
              Inl e \<Rightarrow> (Inl loadFailed, st\<lparr> importCalls := importCalls st + 1 \<rparr>)
            | Inr imported \<Rightarrow>
                (case resolveChromeCookieModule imported of
                   None \<Rightarrow> (Inl (ChromeCookieSyncError
                              ''chrome-cookies-secure did not expose getCookiesPromised''),
                            st\<lparr> importCalls := importCalls st + 1 \<rparr>)
                 | Some m \<Rightarrow> (Inr m, st\<lparr> importCalls := importCalls st + 1 \<rparr>)))"
  using assms
  by (subst loadChromeCookiesModule.simps)
     (auto simp: attemptSqliteRebuild_def Let_def split: sum.splits option.splits)


lemma attempt_budget:
  "rebuildBudget st \<Longrightarrow> rebuildBudget (snd (attemptSqliteRebuild env st))"
  by (auto simp: rebuildBudget_def attemptSqliteRebuild_def Let_def
        split: spawn_outcome.splits if_splits)

lemma load_budget:
  "rebuildBudget st \<Longrightarrow> rebuildBudget (snd (loadChromeCookiesModule env st))"
proof (induction env st rule: loadChromeCookiesModule.induct)
  case (1 env st)
  let ?st1 = "st\<lparr> importCalls := importCalls st + 1 \<rparr>"
  have b1: "rebuildBudget ?st1"
    using "1.prems" by (simp add: rebuildBudget_def)
  have b2: "rebuildBudget (snd (attemptSqliteRebuild env ?st1))"
    by (rule attempt_budget [OF b1])
  show ?case
  proof (cases "importResult env (importCalls st)")
    case (Inl e)
    show ?thesis
    proof (cases "isSqliteBindingError e \<and> fst (attemptSqliteRebuild env ?st1)")
      case True
      then have "rebuildBudget (snd (loadChromeCookiesModule env (snd (attemptSqliteRebuild env ?st1))))"
        using "1.IH" [OF refl Inl] b2 by simp
      then show ?thesis
        using Inl True by (subst loadChromeCookiesModule.simps) (simp add: Let_def)
    next
      case False
      then show ?thesis
        using Inl b1 b2 by (subst loadChromeCookiesModule.simps) (auto simp: Let_def)
    qed
  next
    case (Inr imported)
    then show ?thesis
      using b1 by (subst loadChromeCookiesModule.simps) (auto simp: Let_def split: option.splits)
  qed
qed

lemma load_no_spawn:
  assumes "allowSqliteRebuild env \<noteq> Some ''1''"
  shows "spawnCalls (snd (loadChromeCookiesModule env st)) = spawnCalls st"
  using assms
  by (subst loadChromeCookiesModule.simps)
     (auto simp: Let_def attemptSqliteRebuild_def split: sum.splits option.splits)

lemma load_error_kind:
  "fst (loadChromeCookiesModule env st) = Inl err \<Longrightarrow> isChromeCookieSyncError err"
proof (induction env st rule: loadChromeCookiesModule.induct)
  case (1 env st)
  show ?case
    using "1.prems" "1.IH"
    by (subst (asm) loadChromeCookiesModule.simps)
       (auto simp: Let_def loadFailed_def split: sum.splits option.splits if_splits)
qed

lemma processLoads_budget:
  "rebuildBudget st \<Longrightarrow> rebuildBudget (processLoads envs st)"
  by (induction envs arbitrary: st) (simp_all add: load_budget)

lemma processLoads_no_spawn:
  "\<forall>env\<in>set envs. allowSqliteRebuild env \<noteq> Some ''1'' \<Longrightarrow>
     spawnCalls (processLoads envs st) = spawnCalls st"
  by (induction envs arbitrary: st) (simp_all add: load_no_spawn)

text \<open>
  C9.  Over the life of a process (any sequence of module loads from the initial
  state) the guard of attemptSqliteRebuild is passed at most once and at most one
  rebuild is spawned; no load spawns one unless ORACLE_ALLOW_SQLITE_REBUILD is 1; and
  when the import fails and no rebuild succeeds, the load throws the
  ChromeCookieSyncError "Unable to load chrome-cookies-secure. Cookie copy is
  required." (every error a load throws is a ChromeCookieSyncError).
\<close>

theorem sqlite_rebuild_once:
  "rebuildAttempts (processLoads envs initialSyncState) \<le> 1
   \<and> spawnCalls (processLoads envs initialSyncState) \<le> 1
   \<and> ((\<forall>env\<in>set envs. allowSqliteRebuild env \<noteq> Some ''1'') \<longrightarrow>
        spawnCalls (processLoads envs initialSyncState) = 0)
   \<and> (allowSqliteRebuild env \<noteq> Some ''1'' \<longrightarrow>
        spawnCalls (snd (loadChromeCookiesModule env st)) = spawnCalls st)
   \<and> (importResult env (importCalls st) = Inl e
        \<and> \<not> (isSqliteBindingError e
              \<and> fst (attemptSqliteRebuild env (st\<lparr> importCalls := importCalls st + 1 \<rparr>))) \<longrightarrow>
        fst (loadChromeCookiesModule env st)
          = Inl (ChromeCookieSyncError
                   ''Unable to load chrome-cookies-secure. Cookie copy is required.''))
   \<and> (fst (loadChromeCookiesModule env st) = Inl err \<longrightarrow> isChromeCookieSyncError err)"
proof -
  have start: "rebuildBudget initialSyncState"
    by (simp add: rebuildBudget_def initialSyncState_def)
  have budget: "rebuildBudget (processLoads envs initialSyncState)"
    by (rule processLoads_budget [OF start])
  have once: "rebuildAttempts (processLoads envs initialSyncState) \<le> 1"
    using budget by (simp add: rebuildBudget_def split: if_splits)
  have spawn: "spawnCalls (processLoads envs initialSyncState) \<le> 1"
    using budget once by (simp add: rebuildBudget_def)
  have optin: "(\<forall>env\<in>set envs. allowSqliteRebuild env \<noteq> Some ''1'') \<longrightarrow>
        spawnCalls (processLoads envs initialSyncState) = 0"
    using processLoads_no_spawn [of envs initialSyncState]
    by (simp add: initialSyncState_def)
  have failed: "importResult env (importCalls st) = Inl e
        \<and> \<not> (isSqliteBindingError e
              \<and> fst (attemptSqliteRebuild env (st\<lparr> importCalls := importCalls st + 1 \<rparr>))) \<longrightarrow>
        fst (loadChromeCookiesModule env st)
          = Inl (ChromeCookieSyncError
                   ''Unable to load chrome-cookies-secure. Cookie copy is required.'')"
    by (subst loadChromeCookiesModule.simps) (auto simp: Let_def loadFailed_def)
  show ?thesis
    using once spawn optin failed load_no_spawn [of env st] load_error_kind [of env st err]
    by blast
qed

lemma broken_import: "importResult brokenEnvOptIn n = Inl bindingError"
  by (simp add: brokenEnvOptIn_def brokenEnv_def)

lemma binding_error_matches: "isSqliteBindingError bindingError"
  by code_simp


theorem sqlite_rebuild_once_witness:
  "processLoads [brokenEnvOptIn, brokenEnvOptIn, brokenEnv] initialSyncState
     = \<lparr> attemptedSqliteRebuild = True, importCalls = 3, rebuildAttempts = 1, spawnCalls = 1 \<rparr>
   \<and> spawnCalls (processLoads [brokenEnv, brokenEnv] initialSyncState) = 0
   \<and> spawnCalls (snd (loadChromeCookiesModule brokenEnv initialSyncState)) = 0
   \<and> fst (loadChromeCookiesModule brokenEnvOptIn initialSyncState)
       = Inl (ChromeCookieSyncError
                ''Unable to load chrome-cookies-secure. Cookie copy is required.'')
   \<and> isChromeCookieSyncError loadFailed"
proof -
  have run: "processLoads [brokenEnvOptIn, brokenEnvOptIn, brokenEnv] initialSyncState
     = \<lparr> attemptedSqliteRebuild = True, importCalls = 3, rebuildAttempts = 1, spawnCalls = 1 \<rparr>"
    by code_simp
  have quiet: "\<forall>env\<in>set [brokenEnv, brokenEnv]. allowSqliteRebuild env \<noteq> Some ''1''"
    by (simp add: brokenEnv_def quietEnv_def)
  have off: "allowSqliteRebuild brokenEnv \<noteq> Some ''1''"
    by (simp add: brokenEnv_def quietEnv_def)
  have imp: "importResult brokenEnvOptIn (importCalls initialSyncState) = Inl bindingError"
    by (rule broken_import)
  have norebuild: "\<not> (isSqliteBindingError bindingError
      \<and> fst (attemptSqliteRebuild brokenEnvOptIn
               (initialSyncState\<lparr> importCalls := importCalls initialSyncState + 1 \<rparr>)))"
    by (simp add: attemptSqliteRebuild_def brokenEnvOptIn_def brokenEnv_def initialSyncState_def)
  have a: "spawnCalls (processLoads [brokenEnv, brokenEnv] initialSyncState) = 0"
    using sqlite_rebuild_once [of "[brokenEnv, brokenEnv]"] quiet by blast
  have b: "spawnCalls (snd (loadChromeCookiesModule brokenEnv initialSyncState)) = 0"
    using sqlite_rebuild_once [of _ brokenEnv initialSyncState] off
    by (simp add: initialSyncState_def)
  have c: "fst (loadChromeCookiesModule brokenEnvOptIn initialSyncState)
       = Inl (ChromeCookieSyncError
                ''Unable to load chrome-cookies-secure. Cookie copy is required.'')"
    using sqlite_rebuild_once [of _ brokenEnvOptIn initialSyncState bindingError] imp norebuild
    by blast
  have d: "isChromeCookieSyncError loadFailed"
    using sqlite_rebuild_once [of _ brokenEnvOptIn initialSyncState bindingError loadFailed] c
    by (simp add: loadFailed_def)
  show ?thesis
    using run a b c d by simp
qed



subsection \<open>Traces of the steps\<close>

lemma follows_await: "follows (await w a) [a]"
  by (auto simp: follows_def await_def awaitWith_def)

lemma follows_awaitWith: "follows (awaitWith w a outcome) [a]"
  by (auto simp: follows_def awaitWith_def)

lemma follows_succeed: "follows (succeed v) []"
  by (simp add: follows_def succeed_def)

lemma follows_throw: "follows (throw e) full"
  by (simp add: follows_def throw_def)

lemma follows_andThen:
  assumes f: "follows f xs" and g: "\<And>v. follows (g v) ys"
  shows "follows (andThen f g) (xs @ ys)"
  unfolding follows_def
proof (intro allI impI)
  fix st r st'
  assume run: "andThen f g st = (r, st')"
  obtain r1 st1 where f1: "f st = (r1, st1)"
    by (cases "f st")
  from f f1 obtain as where as: "trace st1 = trace st @ as" "prefix as xs"
      "(\<exists>v. r1 = Inr v) \<longrightarrow> as = xs"
    unfolding follows_def by blast
  show "\<exists>zs. trace st' = trace st @ zs \<and> prefix zs (xs @ ys)
             \<and> ((\<exists>v. r = Inr v) \<longrightarrow> zs = xs @ ys)"
  proof (cases r1)
    case (Inl e)
    then have "r = Inl e" "st' = st1"
      using run f1 by (simp_all add: andThen_def)
    then show ?thesis
      using as by auto
  next
    case (Inr v)
    then have g1: "g v st1 = (r, st')"
      using run f1 by (simp add: andThen_def)
    from g [of v] g1 obtain bs where bs: "trace st' = trace st1 @ bs" "prefix bs ys"
        "(\<exists>v. r = Inr v) \<longrightarrow> bs = ys"
      unfolding follows_def by blast
    have "as = xs"
      using as Inr by simp
    then show ?thesis
      using as bs by auto
  qed
qed

lemma follows_state:
  "follows (\<lambda>st. (Inr v, st\<lparr> client := c, listening := l \<rparr>)) []"
  by (simp add: follows_def)

lemma follows_syncCookiesStep: "follows (syncCookiesStep w cfg) [SyncCookies]"
  by (auto simp: follows_def syncCookiesStep_def awaitWith_def Let_def split: prod.splits sum.splits)

lemma follows_connectAndPrepare:
  "follows (connectAndPrepare w cfg)
     ([ConnectToChrome]
      @ (if \<not> headless cfg \<and> hideWindow cfg then [HideChromeWindow] else [])
      @ [EnableDomains, ClearBrowserCookies]
      @ (if cookieSync cfg then [SyncCookies] else []))"
proof -
  have hide: "follows (if \<not> headless cfg \<and> hideWindow cfg then await w HideChromeWindow else succeed ())
                (if \<not> headless cfg \<and> hideWindow cfg then [HideChromeWindow] else [])"
    by (simp add: follows_await follows_succeed)
  have sync: "follows (if cookieSync cfg then syncCookiesStep w cfg else succeed ())
                (if cookieSync cfg then [SyncCookies] else [])"
    by (simp add: follows_syncCookiesStep follows_succeed)
  have "follows (connectAndPrepare w cfg)
     ([ConnectToChrome] @ [] @ (if \<not> headless cfg \<and> hideWindow cfg then [HideChromeWindow] else [])
      @ [EnableDomains] @ [ClearBrowserCookies] @ (if cookieSync cfg then [SyncCookies] else []))"
    unfolding connectAndPrepare_def
    by (intro follows_andThen follows_await follows_state hide sync)
  then show ?thesis by simp
qed

lemma follows_openPage:
  "follows (openPage w) [NavigateToChatGPT, EnsureNotBlocked, EnsurePromptReady]"
proof -
  have "follows (openPage w) ([NavigateToChatGPT] @ [EnsureNotBlocked] @ [EnsurePromptReady])"
    unfolding openPage_def by (intro follows_andThen follows_await)
  then show ?thesis by simp
qed

lemma follows_uploadEach:
  "follows (uploadEach w atts) (map (\<lambda>a. UploadAttachmentFile (path a)) atts)"
proof (induction atts)
  case Nil
  show ?case by (simp add: follows_succeed)
next
  case (Cons a atts)
  have "follows (uploadEach w (a # atts))
          ([UploadAttachmentFile (path a)] @ map (\<lambda>a. UploadAttachmentFile (path a)) atts)"
    unfolding uploadEach.simps by (intro follows_andThen follows_await Cons.IH)
  then show ?case by simp
qed

lemma follows_uploadAttachments: "follows (uploadAttachments w atts) (uploadSteps atts)"
proof (cases "atts = []")
  case True
  then show ?thesis
    by (simp add: uploadAttachments_def uploadSteps_def follows_succeed)
next
  case False
  show ?thesis
  proof (cases "domPresent w")
    case True
    have "follows (andThen (uploadEach w atts) (\<lambda>_. await w WaitForAttachmentCompletion))
            (map (\<lambda>a. UploadAttachmentFile (path a)) atts @ [WaitForAttachmentCompletion])"
      by (intro follows_andThen follows_await follows_uploadEach)
    then show ?thesis
      using False True by (simp add: uploadAttachments_def uploadSteps_def)
  next
    case no: False
    then show ?thesis
      using False by (simp add: uploadAttachments_def follows_throw)
  qed
qed

lemma follows_monitor:
  "follows (\<lambda>st. (Inr (), (call StartThinkingStatusMonitor st)\<lparr> monitor := True \<rparr>))
     [StartThinkingStatusMonitor]"
  by (simp add: follows_def call_def)

lemma follows_submitAndWait:
  "follows (submitAndWait w) [SubmitPrompt, StartThinkingStatusMonitor, WaitForAssistantResponse]"
proof -
  have "follows (submitAndWait w)
          ([SubmitPrompt] @ [StartThinkingStatusMonitor] @ [WaitForAssistantResponse] @ [])"
    unfolding submitAndWait_def
    by (intro follows_andThen follows_await follows_monitor follows_succeed)
  then show ?thesis by simp
qed

text \<open>The try block without its last part.\<close>

lemma follows_throughResponse:
  "follows (andThen (connectAndPrepare w cfg) (\<lambda>_.
            andThen (openPage w) (\<lambda>_.
            andThen (uploadAttachments w atts) (\<lambda>_. submitAndWait w))))
     (actionsThroughResponse cfg atts)"
proof -
  have "follows (andThen (connectAndPrepare w cfg) (\<lambda>_.
            andThen (openPage w) (\<lambda>_.
            andThen (uploadAttachments w atts) (\<lambda>_. submitAndWait w))))
     (([ConnectToChrome]
      @ (if \<not> headless cfg \<and> hideWindow cfg then [HideChromeWindow] else [])
      @ [EnableDomains, ClearBrowserCookies]
      @ (if cookieSync cfg then [SyncCookies] else []))
      @ [NavigateToChatGPT, EnsureNotBlocked, EnsurePromptReady]
      @ uploadSteps atts
      @ [SubmitPrompt, StartThinkingStatusMonitor, WaitForAssistantResponse])"
    by (intro follows_andThen follows_connectAndPrepare follows_openPage
          follows_uploadAttachments follows_submitAndWait)
  then show ?thesis
    by (simp add: actionsThroughResponse_def)
qed


lemma tryBlock_split:
  "tryBlock w cfg p atts st =
     (case andThen (connectAndPrepare w cfg) (\<lambda>_.
             andThen (openPage w) (\<lambda>_.
             andThen (uploadAttachments w atts) (\<lambda>_. submitAndWait w))) st of
        (Inl e, st') \<Rightarrow> (Inl e, st')
      | (Inr ans, st') \<Rightarrow> finishRun w ans st')"
  by (simp add: tryBlock_def andThen_def split: prod.splits sum.splits)

subsection \<open>What the steps leave unchanged\<close>

text \<open>A step is quiet when it changes nothing but the trace, the cookie reader's state
  and the flags it may only raise.\<close>

lemma await_state:
  assumes "awaitWith w a outcome st = (r, st')"
  shows "client st' = client st" "hooks st' = hooks st" "monitor st' = monitor st"
    "listening st' = listening st"
    "connectionClosedUnexpectedly st \<Longrightarrow> connectionClosedUnexpectedly st'"
    "trace st' = trace st @ [a]" "r = outcome"
  using assms by (auto simp: awaitWith_def)

lemma captureTask_uniform:
  "\<exists>out. (\<forall>st. captureTask w k st =
              (out, st\<lparr> trace := trace st @ [CaptureAssistantMarkdown k],
                        connectionClosedUnexpectedly :=
                          connectionClosedUnexpectedly st
                          \<or> (listening st \<and> disconnectDuring w (CaptureAssistantMarkdown k)) \<rparr>))
         \<and> (captureFails w k \<longrightarrow> (\<exists>e. out = Inl e))"
  by (auto simp: captureFails_def captureTask_def captureAssistantMarkdown_def andThen_def
        await_def awaitWith_def succeed_def throw_def split: option.splits if_splits)

lemma withRetries_two:
  "withRetries w task 2 0 st =
     (case task 0 st of
        (Inr v, st1) \<Rightarrow> (Inr v, st1)
      | (Inl e, st1) \<Rightarrow>
          (case task 1 (snd (awaitWith w (RetryDelay 0) (Inr ()) st1)) of
             (Inr v, st2) \<Rightarrow> (Inr v, st2)
           | (Inl e, st2) \<Rightarrow> task 2 (snd (awaitWith w (RetryDelay 1) (Inr ()) st2))))"
  by (simp add: numeral_2_eq_2 split: prod.splits sum.splits)

lemma copiedMarkdown_trace:
  assumes "copiedMarkdown w st = (c, st')"
  shows "(\<exists>xs. trace st' = trace st @ xs
           \<and> (xs = [CaptureAssistantMarkdown 0]
              \<or> xs = [CaptureAssistantMarkdown 0, RetryDelay 0, CaptureAssistantMarkdown 1]
              \<or> xs = [CaptureAssistantMarkdown 0, RetryDelay 0, CaptureAssistantMarkdown 1,
                       RetryDelay 1, CaptureAssistantMarkdown 2]))
         \<and> monitor st' = monitor st \<and> client st' = client st \<and> hooks st' = hooks st
         \<and> (connectionClosedUnexpectedly st \<longrightarrow> connectionClosedUnexpectedly st')
         \<and> (captureFails w 0 \<and> captureFails w 1 \<and> captureFails w 2 \<longrightarrow> c = None)"
proof -
  obtain o0 where o0: "\<And>st. captureTask w 0 st =
              (o0, st\<lparr> trace := trace st @ [CaptureAssistantMarkdown 0],
                        connectionClosedUnexpectedly :=
                          connectionClosedUnexpectedly st
                          \<or> (listening st \<and> disconnectDuring w (CaptureAssistantMarkdown 0)) \<rparr>)"
     and f0: "captureFails w 0 \<longrightarrow> (\<exists>e. o0 = Inl e)"
    using captureTask_uniform [of w 0] by blast
  obtain o1 where o1: "\<And>st. captureTask w (Suc 0) st =
              (o1, st\<lparr> trace := trace st @ [CaptureAssistantMarkdown (Suc 0)],
                        connectionClosedUnexpectedly :=
                          connectionClosedUnexpectedly st
                          \<or> (listening st \<and> disconnectDuring w (CaptureAssistantMarkdown (Suc 0))) \<rparr>)"
     and f1: "captureFails w (Suc 0) \<longrightarrow> (\<exists>e. o1 = Inl e)"
    using captureTask_uniform [of w "Suc 0"] by (auto simp del: One_nat_def simp: One_nat_def [symmetric])
  obtain o2 where o2: "\<And>st. captureTask w 2 st =
              (o2, st\<lparr> trace := trace st @ [CaptureAssistantMarkdown 2],
                        connectionClosedUnexpectedly :=
                          connectionClosedUnexpectedly st
                          \<or> (listening st \<and> disconnectDuring w (CaptureAssistantMarkdown 2)) \<rparr>)"
     and f2: "captureFails w 2 \<longrightarrow> (\<exists>e. o2 = Inl e)"
    using captureTask_uniform [of w 2] by blast
  show ?thesis
    using assms f0 f1 f2
    by (cases o0; cases o1; cases o2)
       (auto simp: copiedMarkdown_def withRetries_two o0 o1 o2 awaitWith_def)
qed

lemma finishRun_result:
  assumes "finishRun w ans st = (r, st')"
  shows "\<exists>res xs. r = Inr res
           \<and> answerText res = answer_text ans
           \<and> (captureFails w 0 \<and> captureFails w 1 \<and> captureFails w 2 \<longrightarrow>
                answerMarkdown res = answer_text ans)
           \<and> trace st' = trace st @ xs @ (if monitor st then [StopThinkingMonitor] else [])
           \<and> (xs = [CaptureAssistantMarkdown 0]
              \<or> xs = [CaptureAssistantMarkdown 0, RetryDelay 0, CaptureAssistantMarkdown 1]
              \<or> xs = [CaptureAssistantMarkdown 0, RetryDelay 0, CaptureAssistantMarkdown 1,
                       RetryDelay 1, CaptureAssistantMarkdown 2])
           \<and> monitor st' = monitor st \<and> client st' = client st \<and> hooks st' = hooks st
           \<and> (connectionClosedUnexpectedly st \<longrightarrow> connectionClosedUnexpectedly st')"
proof -
  obtain c st1 where c: "copiedMarkdown w st = (c, st1)"
    by (cases "copiedMarkdown w st")
  from copiedMarkdown_trace [OF c] show ?thesis
    using assms c
    by (auto simp: finishRun_def Let_def call_def orElse_def)
qed


lemma follows_avoids:
  assumes "follows f full" and "a \<notin> set full" and "f st = (r, st')"
  shows "\<exists>xs. trace st' = trace st @ xs \<and> a \<notin> set xs \<and> prefix xs full
           \<and> ((\<exists>v. r = Inr v) \<longrightarrow> xs = full)"
proof -
  from assms(1,3) obtain xs where xs: "trace st' = trace st @ xs" "prefix xs full"
      "(\<exists>v. r = Inr v) \<longrightarrow> xs = full"
    unfolding follows_def by blast
  have "a \<notin> set xs"
    using set_mono_prefix [OF xs(2)] assms(2) by blast
  then show ?thesis
    using xs by blast
qed

lemma submitAndWait_failed:
  assumes "submitAndWait w st = (Inl e, st')" and "stepFailure w WaitForAssistantResponse = None"
  shows "trace st' = trace st @ [SubmitPrompt]"
  using assms
  by (auto simp: submitAndWait_def andThen_def await_def awaitWith_def succeed_def call_def
        split: option.splits)

lemma submitAndWait_answer:
  assumes "submitAndWait w st = (Inr ans, st')"
  shows "ans = answer w"
  using assms
  by (auto simp: submitAndWait_def andThen_def await_def awaitWith_def succeed_def call_def
        split: option.splits)

text \<open>When the response wait does not throw, a failure before the answer leaves no
  response wait in the trace.\<close>

lemma throughResponse_failed:
  assumes run: "andThen (connectAndPrepare w cfg) (\<lambda>_.
                  andThen (openPage w) (\<lambda>_.
                  andThen (uploadAttachments w atts) (\<lambda>_. submitAndWait w))) st = (Inl e, st')"
    and ok: "stepFailure w WaitForAssistantResponse = None"
  shows "\<exists>xs. trace st' = trace st @ xs \<and> WaitForAssistantResponse \<notin> set xs"
proof -
  obtain r1 st1 where c1: "connectAndPrepare w cfg st = (r1, st1)"
    by (cases "connectAndPrepare w cfg st")
  have n1: "WaitForAssistantResponse \<notin> set ([ConnectToChrome]
      @ (if \<not> headless cfg \<and> hideWindow cfg then [HideChromeWindow] else [])
      @ [EnableDomains, ClearBrowserCookies]
      @ (if cookieSync cfg then [SyncCookies] else []))"
    by simp
  from follows_avoids [OF follows_connectAndPrepare n1 c1]
  obtain xs1 where x1: "trace st1 = trace st @ xs1" "WaitForAssistantResponse \<notin> set xs1"
    by blast
  show ?thesis
  proof (cases r1)
    case (Inl e1)
    then have "st' = st1"
      using run c1 by (simp add: andThen_def)
    then show ?thesis using x1 by blast
  next
    case (Inr v1)
    obtain r2 st2 where c2: "openPage w st1 = (r2, st2)"
      by (cases "openPage w st1")
    have n2: "WaitForAssistantResponse \<notin> set [NavigateToChatGPT, EnsureNotBlocked, EnsurePromptReady]"
      by simp
    from follows_avoids [OF follows_openPage n2 c2]
    obtain xs2 where x2: "trace st2 = trace st1 @ xs2" "WaitForAssistantResponse \<notin> set xs2"
      by blast
    show ?thesis
    proof (cases r2)
      case (Inl e2)
      then have "st' = st2"
        using run c1 c2 Inr by (simp add: andThen_def)
      then show ?thesis using x1 x2 by auto
    next
      case r2: (Inr v2)
      obtain r3 st3 where c3: "uploadAttachments w atts st2 = (r3, st3)"
        by (cases "uploadAttachments w atts st2")
      have n3: "WaitForAssistantResponse \<notin> set (uploadSteps atts)"
        by (auto simp: uploadSteps_def)
      from follows_avoids [OF follows_uploadAttachments n3 c3]
      obtain xs3 where x3: "trace st3 = trace st2 @ xs3" "WaitForAssistantResponse \<notin> set xs3"
        by blast
      show ?thesis
      proof (cases r3)
        case (Inl e3)
        then have "st' = st3"
          using run c1 c2 c3 Inr r2 by (simp add: andThen_def)
        then show ?thesis using x1 x2 x3 by auto
      next
        case r3: (Inr v3)
        then have "submitAndWait w st3 = (Inl e, st')"
          using run c1 c2 c3 Inr r2 by (simp add: andThen_def)
        from submitAndWait_failed [OF this ok]
        show ?thesis using x1 x2 x3 by auto
      qed
    qed
  qed
qed

lemma throughResponse_answer:
  assumes run: "andThen (connectAndPrepare w cfg) (\<lambda>_.
                  andThen (openPage w) (\<lambda>_.
                  andThen (uploadAttachments w atts) (\<lambda>_. submitAndWait w))) st = (Inr ans, st')"
  shows "ans = answer w"
  using run submitAndWait_answer
  by (auto simp: andThen_def split: prod.splits sum.splits)

subsection \<open>The catch and finally blocks\<close>

lemma catchBlock_result:
  assumes "catchBlock e st = (r, st2)"
  shows "trace st2 = trace st @ (if monitor st then [StopThinkingMonitor] else [])"
    and "\<exists>e'. r = Inl e'"
    and "connectionClosedUnexpectedly st \<or> isWebSocketClosureError (normalizeError e) \<Longrightarrow>
           r = Inl (windowClosed (normalizeError e)) \<and> connectionClosedUnexpectedly st2"
    and "\<not> (connectionClosedUnexpectedly st \<or> isWebSocketClosureError (normalizeError e)) \<Longrightarrow>
           r = Inl (normalizeError e)"
  using assms by (auto simp: catchBlock_def Let_def call_def split: if_splits)

lemma finallyBlock_trace:
  "\<exists>fin. trace (finallyBlock w cfg st) = trace st @ fin
     \<and> set fin \<subseteq> {ClientClose, RemoveTerminationHooks, ChromeKill, RmUserDataDir}
     \<and> (keepBrowser cfg \<longrightarrow> ChromeKill \<notin> set fin \<and> RmUserDataDir \<notin> set fin)
     \<and> (connectionClosedUnexpectedly st \<longrightarrow> ClientClose \<notin> set fin \<and> ChromeKill \<notin> set fin)"
  by (auto simp: finallyBlock_def Let_def awaitIgnoringErrors_def await_def awaitWith_def call_def)

lemma enterRun_result:
  assumes "enterRun w options st = (r, st0)"
  shows "\<exists>pre. trace st0 = trace st @ pre
           \<and> prefix pre [MkdTemp, LaunchChrome, RegisterTerminationHooks]
           \<and> (\<forall>p atts cfg. r = Inr (p, atts, cfg) \<longrightarrow>
                atts = orElse (attachments options) []
                \<and> cfg = resolveBrowserConfig (defaultUrl w) (config options)
                \<and> prompt options \<noteq> None \<and> p \<noteq> [])"
  using assms
  by (auto simp: enterRun_def throw_def andThen_def await_def awaitWith_def call_def Let_def
        split: option.splits if_splits)


subsection \<open>The trace of the try block\<close>

lemma filter_uploadSteps: "filter isPageStep (uploadSteps atts) = uploadSteps atts"
  by (simp add: uploadSteps_def filter_map o_def)

lemma filter_actionsThroughResponse:
  "filter isPageStep (actionsThroughResponse cfg atts) =
     [NavigateToChatGPT, EnsureNotBlocked, EnsurePromptReady] @ uploadSteps atts
     @ [SubmitPrompt, WaitForAssistantResponse]"
  by (simp add: actionsThroughResponse_def filter_uploadSteps)

lemma tryBlock_trace:
  assumes run: "tryBlock w cfg p atts st = (r, st1)"
  shows "\<exists>xs. trace st1 = trace st @ xs
           \<and> prefix (filter isPageStep xs) (pageSteps atts)
           \<and> (\<forall>a\<in>set xs. a \<in> set (actionsThroughResponse cfg atts)
                  \<or> (\<exists>k. a = CaptureAssistantMarkdown k \<or> a = RetryDelay k)
                  \<or> a = StopThinkingMonitor)
           \<and> (\<forall>res. r = Inr res \<longrightarrow>
                prefix ([NavigateToChatGPT, EnsureNotBlocked, EnsurePromptReady] @ uploadSteps atts
                        @ [SubmitPrompt, WaitForAssistantResponse, CaptureAssistantMarkdown 0])
                       (filter isPageStep xs)
                \<and> answerText res = answer_text (answer w)
                \<and> (captureFails w 0 \<and> captureFails w 1 \<and> captureFails w 2 \<longrightarrow>
                     answerMarkdown res = answer_text (answer w)))
           \<and> (\<forall>e. r = Inl e \<and> stepFailure w WaitForAssistantResponse = None \<longrightarrow>
                WaitForAssistantResponse \<notin> set xs)"
proof -
  let ?through = "andThen (connectAndPrepare w cfg) (\<lambda>_.
                    andThen (openPage w) (\<lambda>_.
                    andThen (uploadAttachments w atts) (\<lambda>_. submitAndWait w)))"
  obtain rA stA where a: "?through st = (rA, stA)"
    by (cases "?through st")
  from follows_throughResponse [of w cfg atts] a
  obtain xsA where xsA: "trace stA = trace st @ xsA"
      "prefix xsA (actionsThroughResponse cfg atts)"
      "(\<exists>v. rA = Inr v) \<longrightarrow> xsA = actionsThroughResponse cfg atts"
    unfolding follows_def by blast
  have pageA: "prefix (filter isPageStep xsA)
                 ([NavigateToChatGPT, EnsureNotBlocked, EnsurePromptReady] @ uploadSteps atts
                  @ [SubmitPrompt, WaitForAssistantResponse])"
    using filter_mono_prefix [OF xsA(2), of isPageStep]
    by (simp add: filter_actionsThroughResponse)
  have inA: "\<forall>a\<in>set xsA. a \<in> set (actionsThroughResponse cfg atts)"
    using set_mono_prefix [OF xsA(2)] by blast
  show ?thesis
  proof (cases rA)
    case (Inl e)
    then have r: "r = Inl e" "st1 = stA"
      using run a by (simp_all add: tryBlock_split)
    have "prefix (filter isPageStep xsA) (pageSteps atts)"
    proof -
      have "prefix ([NavigateToChatGPT, EnsureNotBlocked, EnsurePromptReady] @ uploadSteps atts
                  @ [SubmitPrompt, WaitForAssistantResponse]) (pageSteps atts)"
        by (simp add: pageSteps_def)
      with pageA show ?thesis
        by (rule prefix_order.trans)
    qed
    moreover have "stepFailure w WaitForAssistantResponse = None \<longrightarrow>
                     WaitForAssistantResponse \<notin> set xsA"
    proof
      assume ok: "stepFailure w WaitForAssistantResponse = None"
      from a Inl have "?through st = (Inl e, stA)" by simp
      from throughResponse_failed [OF this ok] xsA(1)
      show "WaitForAssistantResponse \<notin> set xsA" by auto
    qed
    ultimately show ?thesis
      using r xsA(1) inA by auto
  next
    case (Inr ans)
    then have fin: "finishRun w ans stA = (r, st1)"
      using run a by (simp add: tryBlock_split)
    have ans: "ans = answer w"
      using throughResponse_answer a Inr by blast
    have full: "xsA = actionsThroughResponse cfg atts"
      using xsA(3) Inr by simp
    from finishRun_result [OF fin]
    obtain res xsC where c: "r = Inr res" "answerText res = answer_text ans"
        "captureFails w 0 \<and> captureFails w 1 \<and> captureFails w 2 \<longrightarrow>
           answerMarkdown res = answer_text ans"
        "trace st1 = trace stA @ xsC @ (if monitor stA then [StopThinkingMonitor] else [])"
        "xsC = [CaptureAssistantMarkdown 0]
         \<or> xsC = [CaptureAssistantMarkdown 0, RetryDelay 0, CaptureAssistantMarkdown 1]
         \<or> xsC = [CaptureAssistantMarkdown 0, RetryDelay 0, CaptureAssistantMarkdown 1,
                   RetryDelay 1, CaptureAssistantMarkdown 2]"
      by blast
    let ?xs = "xsA @ xsC @ (if monitor stA then [StopThinkingMonitor] else [])"
    have t: "trace st1 = trace st @ ?xs"
      using c(4) xsA(1) by simp
    have page: "prefix (filter isPageStep ?xs) (pageSteps atts)"
      using c(5) by (auto simp: full filter_actionsThroughResponse pageSteps_def)
    have first: "prefix ([NavigateToChatGPT, EnsureNotBlocked, EnsurePromptReady] @ uploadSteps atts
                        @ [SubmitPrompt, WaitForAssistantResponse, CaptureAssistantMarkdown 0])
                       (filter isPageStep ?xs)"
      using c(5) by (auto simp: full filter_actionsThroughResponse)
    have mem: "\<forall>a\<in>set ?xs. a \<in> set (actionsThroughResponse cfg atts)
                  \<or> (\<exists>k. a = CaptureAssistantMarkdown k \<or> a = RetryDelay k)
                  \<or> a = StopThinkingMonitor"
      using c(5) inA by auto
    show ?thesis
      using t page first mem c(1,2,3) ans by blast
  qed
qed



lemma run_enter_failed:
  assumes "enterRun w options (freshRun s) = (Inl e, st0)"
  shows "runBrowserMode w s options = (Inl e, st0)"
  using assms by (simp add: runBrowserMode_def)

lemma run_try_returned:
  assumes "enterRun w options (freshRun s) = (Inr (p, atts, cfg), st0)"
    and "tryBlock w cfg p atts st0 = (Inr res, st1)"
  shows "runBrowserMode w s options = (Inr res, finallyBlock w cfg st1)"
  using assms by (simp add: runBrowserMode_def)

lemma run_try_threw:
  assumes "enterRun w options (freshRun s) = (Inr (p, atts, cfg), st0)"
    and "tryBlock w cfg p atts st0 = (Inl e, st1)"
    and "catchBlock e st1 = (rc, stc)"
  shows "runBrowserMode w s options = (rc, finallyBlock w cfg stc)"
  using assms by (simp add: runBrowserMode_def)

lemma enterRun_trace:
  assumes "enterRun w options (freshRun s) = (r0, st0)"
  shows "prefix (trace st0) [MkdTemp, LaunchChrome, RegisterTerminationHooks]"
    and "r0 = Inr (p, atts, cfg) \<Longrightarrow> atts = orElse (attachments options) []"
    and "r0 = Inr (p, atts, cfg) \<Longrightarrow> cfg = resolveBrowserConfig (defaultUrl w) (config options)"
proof -
  from enterRun_result [OF assms]
  obtain pre where pre: "trace st0 = trace (freshRun s) @ pre"
      "prefix pre [MkdTemp, LaunchChrome, RegisterTerminationHooks]"
      "\<forall>p atts cfg. r0 = Inr (p, atts, cfg) \<longrightarrow>
                atts = orElse (attachments options) []
                \<and> cfg = resolveBrowserConfig (defaultUrl w) (config options)
                \<and> prompt options \<noteq> None \<and> p \<noteq> []"
    by blast
  have "trace st0 = pre"
    using pre(1) by (simp add: freshRun_def)
  then show "prefix (trace st0) [MkdTemp, LaunchChrome, RegisterTerminationHooks]"
    using pre(2) by simp
  show "atts = orElse (attachments options) []" if "r0 = Inr (p, atts, cfg)"
    using pre(3) that by blast
  show "cfg = resolveBrowserConfig (defaultUrl w) (config options)" if "r0 = Inr (p, atts, cfg)"
    using pre(3) that by blast
qed


lemma run_cases [case_names blank returned threw]:
  obtains
    (blank) e st0 where
      "enterRun w options (freshRun s) = (Inl e, st0)"
      "runBrowserMode w s options = (Inl e, st0)"
  | (returned) p st0 res st1 where
      "enterRun w options (freshRun s)
         = (Inr (p, orElse (attachments options) [],
                 resolveBrowserConfig (defaultUrl w) (config options)), st0)"
      "tryBlock w (resolveBrowserConfig (defaultUrl w) (config options)) p
         (orElse (attachments options) []) st0 = (Inr res, st1)"
      "runBrowserMode w s options
         = (Inr res, finallyBlock w (resolveBrowserConfig (defaultUrl w) (config options)) st1)"
  | (threw) p st0 e st1 where
      "enterRun w options (freshRun s)
         = (Inr (p, orElse (attachments options) [],
                 resolveBrowserConfig (defaultUrl w) (config options)), st0)"
      "tryBlock w (resolveBrowserConfig (defaultUrl w) (config options)) p
         (orElse (attachments options) []) st0 = (Inl e, st1)"
      "runBrowserMode w s options
         = (fst (catchBlock e st1),
            finallyBlock w (resolveBrowserConfig (defaultUrl w) (config options))
              (snd (catchBlock e st1)))"
proof -
  obtain r0 st0 where enter: "enterRun w options (freshRun s) = (r0, st0)"
    by (cases "enterRun w options (freshRun s)")
  show ?thesis
  proof (cases r0)
    case (Inl e)
    with enter have "enterRun w options (freshRun s) = (Inl e, st0)" by simp
    from this run_enter_failed [OF this] show ?thesis by (rule blank)
  next
    case (Inr x)
    obtain p atts cfg where x: "x = (p, atts, cfg)"
      by (cases x)
    have r0: "r0 = Inr (p, atts, cfg)"
      using Inr x by simp
    have atts: "atts = orElse (attachments options) []"
      by (rule enterRun_trace(2) [OF enter r0])
    have cfg: "cfg = resolveBrowserConfig (defaultUrl w) (config options)"
      by (rule enterRun_trace(3) [OF enter r0])
    have enter': "enterRun w options (freshRun s) = (Inr (p, atts, cfg), st0)"
      using enter r0 by simp
    obtain r st1 where tb: "tryBlock w cfg p atts st0 = (r, st1)"
      by (cases "tryBlock w cfg p atts st0")
    show ?thesis
    proof (cases r)
      case ok: (Inr res)
      with tb have tb': "tryBlock w cfg p atts st0 = (Inr res, st1)" by simp
      from run_try_returned [OF enter' tb'] enter' tb' show ?thesis
        unfolding atts cfg by (rule returned [rotated 2])
    next
      case bad: (Inl e)
      with tb have tb': "tryBlock w cfg p atts st0 = (Inl e, st1)" by simp
      have c: "catchBlock e st1 = (fst (catchBlock e st1), snd (catchBlock e st1))"
        by simp
      from run_try_threw [OF enter' tb' c] enter' tb' show ?thesis
        unfolding atts cfg by (rule threw [rotated 2])
    qed
  qed
qed

lemma not_through_response:
  "a = EnsureModelSelection \<or> a = ClientClose \<or> a = ChromeKill \<or> a = RmUserDataDir
     \<or> a = RemoveTerminationHooks \<Longrightarrow>
   a \<notin> set (actionsThroughResponse cfg atts)"
  by (auto simp: actionsThroughResponse_def uploadSteps_def)

lemma tryBlock_never:
  assumes tb: "tryBlock w cfg p atts st = (r, st1)"
    and a: "a = EnsureModelSelection \<or> a = ClientClose \<or> a = ChromeKill \<or> a = RmUserDataDir
              \<or> a = RemoveTerminationHooks"
    and before: "a \<notin> set (trace st)"
  shows "a \<notin> set (trace st1)"
proof -
  from tryBlock_trace [OF tb]
  obtain xs where xs: "trace st1 = trace st @ xs"
      "\<forall>a\<in>set xs. a \<in> set (actionsThroughResponse cfg atts)
                  \<or> (\<exists>k. a = CaptureAssistantMarkdown k \<or> a = RetryDelay k)
                  \<or> a = StopThinkingMonitor"
    by blast
  have "a \<notin> set xs"
  proof
    assume "a \<in> set xs"
    with xs(2) have "a \<in> set (actionsThroughResponse cfg atts)
                  \<or> (\<exists>k. a = CaptureAssistantMarkdown k \<or> a = RetryDelay k)
                  \<or> a = StopThinkingMonitor"
      by blast
    with not_through_response [OF a, of cfg atts] a show False
      by auto
  qed
  with before xs(1) show ?thesis by simp
qed

lemma enterRun_never:
  assumes "enterRun w options (freshRun s) = (r0, st0)"
    and "a = EnsureModelSelection \<or> a = ClientClose \<or> a = ChromeKill \<or> a = RmUserDataDir
           \<or> a = RemoveTerminationHooks"
  shows "a \<notin> set (trace st0)"
proof -
  have "set (trace st0) \<subseteq> set [MkdTemp, LaunchChrome, RegisterTerminationHooks]"
    by (rule set_mono_prefix [OF enterRun_trace(1) [OF assms(1)]])
  with assms(2) show ?thesis by auto
qed

lemma enterRun_no_page_step:
  assumes "enterRun w options (freshRun s) = (r0, st0)"
  shows "filter isPageStep (trace st0) = []"
proof -
  have "prefix (filter isPageStep (trace st0))
          (filter isPageStep [MkdTemp, LaunchChrome, RegisterTerminationHooks])"
    by (rule filter_mono_prefix [OF enterRun_trace(1) [OF assms(1)]])
  then show ?thesis by simp
qed

lemma catchBlock_never:
  assumes "a \<noteq> StopThinkingMonitor" and "a \<notin> set (trace st)"
  shows "a \<notin> set (trace (snd (catchBlock e st)))"
  using assms by (simp add: catchBlock_def Let_def call_def)

lemma catchBlock_no_page_step:
  "filter isPageStep (trace (snd (catchBlock e st))) = filter isPageStep (trace st)"
  by (simp add: catchBlock_def Let_def call_def)

lemma finallyBlock_no_page_step:
  "filter isPageStep (trace (finallyBlock w cfg st)) = filter isPageStep (trace st)"
  by (simp add: finallyBlock_def Let_def awaitIgnoringErrors_def await_def awaitWith_def call_def)

lemma finallyBlock_no_model_selection:
  "EnsureModelSelection \<notin> set (trace st) \<Longrightarrow>
   EnsureModelSelection \<notin> set (trace (finallyBlock w cfg st))"
  by (simp add: finallyBlock_def Let_def awaitIgnoringErrors_def await_def awaitWith_def call_def)

lemma finallyBlock_keep:
  assumes "keepBrowser cfg" and "a = ChromeKill \<or> a = RmUserDataDir" and "a \<notin> set (trace st)"
  shows "a \<notin> set (trace (finallyBlock w cfg st))"
  using assms
  by (auto simp: finallyBlock_def Let_def awaitIgnoringErrors_def await_def awaitWith_def call_def)

lemma finallyBlock_lost:
  assumes "connectionClosedUnexpectedly st" and "a = ClientClose \<or> a = ChromeKill"
    and "a \<notin> set (trace st)"
  shows "a \<notin> set (trace (finallyBlock w cfg st))"
  using assms
  by (auto simp: finallyBlock_def Let_def awaitIgnoringErrors_def await_def awaitWith_def call_def)




subsection \<open>Keeping the browser\<close>

text \<open>
  C4.  When the resolved configuration has keepBrowser set, no run of runBrowserMode,
  whatever the world does (success, any failure, a lost connection), calls
  chrome.kill() or removes the temporary profile directory.
\<close>

theorem keepBrowser_no_kill:
  assumes keep: "keepBrowser (resolveBrowserConfig (defaultUrl w) (config options))"
  shows "ChromeKill \<notin> set (trace (snd (runBrowserMode w s options)))
         \<and> RmUserDataDir \<notin> set (trace (snd (runBrowserMode w s options)))"
proof -
  have "a \<notin> set (trace (snd (runBrowserMode w s options)))"
    if a: "a = ChromeKill \<or> a = RmUserDataDir" for a
  proof -
    have a': "a = EnsureModelSelection \<or> a = ClientClose \<or> a = ChromeKill \<or> a = RmUserDataDir
                \<or> a = RemoveTerminationHooks"
      using a by blast
    have stop: "a \<noteq> StopThinkingMonitor"
      using a by auto
    show ?thesis
    proof (cases rule: run_cases [of w options s])
      case (blank e st0)
      then show ?thesis
        using enterRun_never [OF blank(1) a'] by simp
    next
      case (returned p st0 res st1)
      have "a \<notin> set (trace st1)"
        by (rule tryBlock_never [OF returned(2) a' enterRun_never [OF returned(1) a']])
      from finallyBlock_keep [OF keep a this] show ?thesis
        by (simp add: returned(3))
    next
      case (threw p st0 e st1)
      have "a \<notin> set (trace st1)"
        by (rule tryBlock_never [OF threw(2) a' enterRun_never [OF threw(1) a']])
      from finallyBlock_keep [OF keep a catchBlock_never [OF stop this]] show ?thesis
        by (simp add: threw(3))
    qed
  qed
  then show ?thesis by blast
qed

subsection \<open>The order of the page steps\<close>

text \<open>
  C1, amended.  In every run the page steps are executed one after the other in the
  order navigate, block check, composer ready, attachment uploads (in the order given,
  then the completion wait), prompt submission, response wait, transcript capture
  attempts: the page steps of the trace are a prefix of that list, and of a run that
  returns they reach at least the first capture.  runBrowserMode never executes the
  model-selection step, whether or not a desired model is configured.
\<close>

theorem page_steps_in_order:
  "prefix (filter isPageStep (trace (snd (runBrowserMode w s options))))
          (pageSteps (orElse (attachments options) []))
   \<and> EnsureModelSelection \<notin> set (trace (snd (runBrowserMode w s options)))
   \<and> (\<forall>res. fst (runBrowserMode w s options) = Inr res \<longrightarrow>
         prefix ([NavigateToChatGPT, EnsureNotBlocked, EnsurePromptReady]
                 @ uploadSteps (orElse (attachments options) [])
                 @ [SubmitPrompt, WaitForAssistantResponse, CaptureAssistantMarkdown 0])
                (filter isPageStep (trace (snd (runBrowserMode w s options)))))"
proof -
  let ?cfg = "resolveBrowserConfig (defaultUrl w) (config options)"
  let ?atts = "orElse (attachments options) []"
  have ms: "EnsureModelSelection = EnsureModelSelection \<or> EnsureModelSelection = ClientClose
              \<or> EnsureModelSelection = ChromeKill \<or> EnsureModelSelection = RmUserDataDir
              \<or> EnsureModelSelection = RemoveTerminationHooks"
    by simp
  show ?thesis
  proof (cases rule: run_cases [of w options s])
    case (blank e st0)
    have "filter isPageStep (trace st0) = []"
      by (rule enterRun_no_page_step [OF blank(1)])
    moreover have "EnsureModelSelection \<notin> set (trace st0)"
      by (rule enterRun_never [OF blank(1) ms])
    ultimately show ?thesis
      by (simp add: blank(2))
  next
    case (returned p st0 res st1)
    from tryBlock_trace [OF returned(2)]
    obtain xs where xs: "trace st1 = trace st0 @ xs"
        "prefix (filter isPageStep xs) (pageSteps ?atts)"
        "\<forall>res'. Inr res = Inr res' \<longrightarrow>
                prefix ([NavigateToChatGPT, EnsureNotBlocked, EnsurePromptReady] @ uploadSteps ?atts
                        @ [SubmitPrompt, WaitForAssistantResponse, CaptureAssistantMarkdown 0])
                       (filter isPageStep xs)
                \<and> answerText res' = answer_text (answer w)
                \<and> (captureFails w 0 \<and> captureFails w 1 \<and> captureFails w 2 \<longrightarrow>
                     answerMarkdown res' = answer_text (answer w))"
      by blast
    have page: "filter isPageStep (trace st1) = filter isPageStep xs"
      using xs(1) enterRun_no_page_step [OF returned(1)] by simp
    have first: "prefix ([NavigateToChatGPT, EnsureNotBlocked, EnsurePromptReady] @ uploadSteps ?atts
                        @ [SubmitPrompt, WaitForAssistantResponse, CaptureAssistantMarkdown 0])
                       (filter isPageStep xs)"
      using xs(3) by blast
    have none: "EnsureModelSelection \<notin> set (trace (finallyBlock w ?cfg st1))"
      by (rule finallyBlock_no_model_selection
            [OF tryBlock_never [OF returned(2) ms enterRun_never [OF returned(1) ms]]])
    show ?thesis
      using xs(2) first none
      by (simp add: returned(3) finallyBlock_no_page_step page)
  next
    case (threw p st0 e st1)
    from tryBlock_trace [OF threw(2)]
    obtain xs where xs: "trace st1 = trace st0 @ xs"
        "prefix (filter isPageStep xs) (pageSteps ?atts)"
      by blast
    have page: "filter isPageStep (trace st1) = filter isPageStep xs"
      using xs(1) enterRun_no_page_step [OF threw(1)] by simp
    have "EnsureModelSelection \<notin> set (trace st1)"
      by (rule tryBlock_never [OF threw(2) ms enterRun_never [OF threw(1) ms]])
    then have none: "EnsureModelSelection \<notin> set (trace (finallyBlock w ?cfg (snd (catchBlock e st1))))"
      by (intro finallyBlock_no_model_selection catchBlock_never) simp_all
    have failed: "\<exists>e'. fst (catchBlock e st1) = Inl e'"
      using catchBlock_result(2) [of e st1 "fst (catchBlock e st1)" "snd (catchBlock e st1)"]
      by simp
    show ?thesis
      using xs(2) none failed
      by (auto simp: threw(3) finallyBlock_no_page_step catchBlock_no_page_step page)
  qed
qed




subsection \<open>Capture failures\<close>

lemma waited_is_page_step:
  "WaitForAssistantResponse \<in> set xs \<longleftrightarrow> WaitForAssistantResponse \<in> set (filter isPageStep xs)"
  by simp

text \<open>
  C6.  In every run that performed the response wait and in which that wait did not
  throw, runBrowserMode returns a result whose answerText is the extracted text; and
  when the first capture and both retries fail (the evaluation throws, or yields nothing
  or an empty string), answerMarkdown equals answerText.
\<close>

theorem capture_failure_not_fatal:
  assumes waited: "WaitForAssistantResponse \<in> set (trace (snd (runBrowserMode w s options)))"
    and ok: "stepFailure w WaitForAssistantResponse = None"
  shows "\<exists>res. fst (runBrowserMode w s options) = Inr res
           \<and> answerText res = answer_text (answer w)
           \<and> (captureFails w 0 \<and> captureFails w 1 \<and> captureFails w 2 \<longrightarrow>
                answerMarkdown res = answerText res)"
proof (cases rule: run_cases [of w options s])
  case (blank e st0)
  have "filter isPageStep (trace st0) = []"
    by (rule enterRun_no_page_step [OF blank(1)])
  with waited show ?thesis
    by (simp add: blank(2) waited_is_page_step [of "trace st0"])
next
  case (returned p st0 res st1)
  from tryBlock_trace [OF returned(2)]
  have "answerText res = answer_text (answer w)
        \<and> (captureFails w 0 \<and> captureFails w 1 \<and> captureFails w 2 \<longrightarrow>
             answerMarkdown res = answer_text (answer w))"
    by blast
  then show ?thesis
    by (simp add: returned(3))
next
  case (threw p st0 e st1)
  from tryBlock_trace [OF threw(2)]
  obtain xs where xs: "trace st1 = trace st0 @ xs"
      "\<forall>e'. Inl e = Inl e' \<and> stepFailure w WaitForAssistantResponse = None \<longrightarrow>
              WaitForAssistantResponse \<notin> set xs"
    by blast
  have "WaitForAssistantResponse \<notin> set xs"
    using xs(2) ok by blast
  then have "WaitForAssistantResponse \<notin> set (filter isPageStep (trace st1))"
    using xs(1) enterRun_no_page_step [OF threw(1)] by simp
  then have "WaitForAssistantResponse \<notin> set (trace (snd (runBrowserMode w s options)))"
    unfolding waited_is_page_step [of "trace (snd (runBrowserMode w s options))"]
    by (simp add: threw(3) finallyBlock_no_page_step catchBlock_no_page_step)
  with waited show ?thesis by simp
qed

subsection \<open>Losing the connection\<close>

text \<open>The disconnect flag is set exactly when a disconnect event is heard: each awaited
  call made with the listener registered keeps the record, and so does every
  composition of such calls.\<close>

lemma disconnectHeard_append:
  "disconnectHeard w (xs @ [a]) \<longleftrightarrow> disconnectHeard w xs \<or> (heard a \<and> disconnectDuring w a)"
  by (auto simp: disconnectHeard_def list_ex_iff)

lemma keeps_awaitWith: "heard a \<Longrightarrow> keeps w (awaitWith w a outcome)"
  by (auto simp: keeps_def recorded_def awaitWith_def disconnectHeard_append)

lemma keeps_await: "heard a \<Longrightarrow> keeps w (await w a)"
  unfolding await_def by (rule keeps_awaitWith)

lemma keeps_succeed: "keeps w (succeed x)"
  by (simp add: keeps_def succeed_def)

lemma keeps_throw: "keeps w (throw e)"
  by (simp add: keeps_def throw_def)

lemma keeps_andThen:
  assumes "keeps w m" and "\<And>x. keeps w (f x)"
  shows "keeps w (andThen m f)"
  unfolding keeps_def
proof (intro allI impI)
  fix st r st'
  assume run: "andThen m f st = (r, st')" and start: "recorded w st \<and> listening st"
  obtain r1 st1 where m: "m st = (r1, st1)"
    by (cases "m st")
  have mid: "recorded w st1 \<and> listening st1"
    using assms(1) m start unfolding keeps_def by blast
  show "recorded w st' \<and> listening st'"
  proof (cases r1)
    case (Inl e)
    then have "st' = st1"
      using run m by (simp add: andThen_def)
    then show ?thesis
      using mid by simp
  next
    case (Inr x)
    then have "f x st1 = (r, st')"
      using run m by (simp add: andThen_def)
    then show ?thesis
      using assms(2) [of x] mid unfolding keeps_def by blast
  qed
qed

lemma keeps_unheard_call:
  assumes "\<And>st. f st = (Inr v, (call a st)\<lparr> monitor := b \<rparr>)" and "\<not> heard a"
  shows "keeps w f"
  using assms
  by (auto simp: keeps_def recorded_def call_def disconnectHeard_append)

lemma keeps_syncCookiesStep: "keeps w (syncCookiesStep w cfg)"
  by (auto simp: keeps_def recorded_def syncCookiesStep_def awaitWith_def Let_def
        disconnectHeard_append split: prod.splits)

lemma keeps_openPage: "keeps w (openPage w)"
  unfolding openPage_def by (intro keeps_andThen keeps_await) simp_all

lemma keeps_uploadEach: "keeps w (uploadEach w atts)"
  by (induction atts) (auto intro!: keeps_andThen keeps_await keeps_succeed)

lemma keeps_uploadAttachments: "keeps w (uploadAttachments w atts)"
  unfolding uploadAttachments_def
  by (auto intro!: keeps_andThen keeps_await keeps_succeed keeps_throw keeps_uploadEach)

lemma keeps_submitAndWait: "keeps w (submitAndWait w)"
  unfolding submitAndWait_def
proof (intro keeps_andThen)
  show "keeps w (await w SubmitPrompt)"
    by (rule keeps_await) simp
  show "keeps w (\<lambda>st. (Inr (), (call StartThinkingStatusMonitor st)\<lparr> monitor := True \<rparr>))"
    by (rule keeps_unheard_call [where a = StartThinkingStatusMonitor and v = "()" and b = True])
       simp_all
  show "keeps w (await w WaitForAssistantResponse)"
    by (rule keeps_await) simp
  show "keeps w (succeed (answer w))"
    by (rule keeps_succeed)
qed

lemma keeps_captureTask: "keeps w (captureTask w attempt)"
  unfolding captureTask_def captureAssistantMarkdown_def
  by (auto intro!: keeps_andThen keeps_await keeps_succeed keeps_throw split: option.splits)

lemma keeps_withRetries:
  assumes "\<And>k. keeps w (task k)"
  shows "keeps w (withRetries w task retries attempt)"
proof (induction retries arbitrary: attempt)
  case 0
  have "withRetries w task 0 attempt = task attempt"
    by (rule ext) simp
  then show ?case
    using assms by simp
next
  case (Suc retries)
  show ?case
    unfolding keeps_def
  proof (intro allI impI)
    fix st r st'
    assume run: "withRetries w task (Suc retries) attempt st = (r, st')"
      and start: "recorded w st \<and> listening st"
    obtain r1 st1 where t: "task attempt st = (r1, st1)"
      by (cases "task attempt st")
    have mid: "recorded w st1 \<and> listening st1"
      using assms [of attempt] t start unfolding keeps_def by blast
    show "recorded w st' \<and> listening st'"
    proof (cases r1)
      case (Inr v)
      then have "st' = st1"
        using run t by simp
      then show ?thesis
        using mid by simp
    next
      case (Inl e)
      obtain r2 st2 where d: "awaitWith w (RetryDelay attempt) (Inr ()) st1 = (r2 :: error + unit, st2)"
        by (cases "awaitWith w (RetryDelay attempt) (Inr ()) st1 :: (error + unit) \<times> run_state")
      have after: "recorded w st2 \<and> listening st2"
        using keeps_awaitWith [of "RetryDelay attempt" w "Inr ()"] d mid
        unfolding keeps_def by (metis heard.simps(13))
      have "withRetries w task retries (Suc attempt) st2 = (r, st')"
        using run t Inl d by simp
      then show ?thesis
        using Suc [of "Suc attempt"] after unfolding keeps_def by blast
    qed
  qed
qed

lemma keeps_finishRun: "keeps w (finishRun w ans)"
  unfolding keeps_def
proof (intro allI impI)
  fix st r st'
  assume run: "finishRun w ans st = (r, st')" and start: "recorded w st \<and> listening st"
  obtain r1 st1 where c: "withRetries w (captureTask w) 2 0 st = (r1, st1)"
    by (cases "withRetries w (captureTask w) 2 0 st")
  have mid: "recorded w st1 \<and> listening st1"
    using keeps_withRetries [of w "captureTask w" 2 0, OF keeps_captureTask] c start
    unfolding keeps_def by blast
  have copied: "snd (copiedMarkdown w st) = st1"
    using c by (simp add: copiedMarkdown_def split: sum.splits)
  have "st' = (if monitor st1 then call StopThinkingMonitor st1 else st1)"
    using run copied by (auto simp: finishRun_def Let_def split: prod.splits)
  then show "recorded w st' \<and> listening st'"
    using mid by (auto simp: recorded_def call_def disconnectHeard_append)
qed

text \<open>The try block registers the listener after connectToChrome, from a state in
  which it is not registered; the statements before the try block await nothing that
  is heard.\<close>

lemma enterRun_recorded:
  assumes "enterRun w options (freshRun s) = (r, st0)"
  shows "recorded w st0 \<and> \<not> listening st0"
  using assms
  by (auto simp: enterRun_def andThen_def await_def awaitWith_def call_def throw_def freshRun_def
        recorded_def disconnectHeard_def Let_def split: option.splits if_splits)

lemma connectAndPrepare_recorded:
  assumes run: "connectAndPrepare w cfg st = (r, st')"
    and start: "recorded w st" "\<not> listening st"
  shows "recorded w st' \<and> ((\<exists>v. r = Inr v) \<longrightarrow> listening st')"
proof -
  define rest :: "unit step" where
    "rest = andThen (if \<not> headless cfg \<and> hideWindow cfg then await w HideChromeWindow else succeed ()) (\<lambda>_.
            andThen (await w EnableDomains) (\<lambda>_.
            andThen (await w ClearBrowserCookies) (\<lambda>_.
            (if cookieSync cfg then syncCookiesStep w cfg else succeed ()))))"
  have rest: "keeps w rest"
    unfolding rest_def
    by (auto intro!: keeps_andThen keeps_await keeps_succeed keeps_syncCookiesStep)
  obtain r1 st1 where c: "await w ConnectToChrome st = (r1, st1)"
    by (cases "await w ConnectToChrome st")
  have st1: "recorded w st1 \<and> \<not> listening st1"
    using c start by (auto simp: await_def awaitWith_def recorded_def disconnectHeard_append)
  have unfold: "connectAndPrepare w cfg st =
                  (case r1 of Inl e \<Rightarrow> (Inl e, st1)
                   | Inr x \<Rightarrow> rest (st1\<lparr> client := True, listening := True \<rparr>))"
    using c by (simp add: connectAndPrepare_def rest_def andThen_def split: sum.splits)
  show ?thesis
  proof (cases r1)
    case (Inl e)
    then have "st' = st1" "r = Inl e"
      using run unfold by simp_all
    then show ?thesis
      using st1 by simp
  next
    case (Inr x)
    then have "rest (st1\<lparr> client := True, listening := True \<rparr>) = (r, st')"
      using run unfold by simp
    moreover have "recorded w (st1\<lparr> client := True, listening := True \<rparr>)
                   \<and> listening (st1\<lparr> client := True, listening := True \<rparr>)"
      using st1 by (simp add: recorded_def)
    ultimately show ?thesis
      using rest unfolding keeps_def by blast
  qed
qed

lemma tryBlock_recorded:
  assumes run: "tryBlock w cfg p atts st0 = (r, st1)"
    and start: "recorded w st0" "\<not> listening st0"
  shows "recorded w st1"
proof -
  define rest :: "BrowserRunResult step" where
    "rest = andThen (openPage w) (\<lambda>_.
            andThen (uploadAttachments w atts) (\<lambda>_.
            andThen (submitAndWait w) (\<lambda>ans.
            finishRun w ans)))"
  have rest: "keeps w rest"
    unfolding rest_def
    by (intro keeps_andThen keeps_openPage keeps_uploadAttachments keeps_submitAndWait
          keeps_finishRun)
  obtain r1 s1 where c: "connectAndPrepare w cfg st0 = (r1, s1)"
    by (cases "connectAndPrepare w cfg st0")
  have s1: "recorded w s1 \<and> ((\<exists>v. r1 = Inr v) \<longrightarrow> listening s1)"
    by (rule connectAndPrepare_recorded [OF c start])
  have unfold: "tryBlock w cfg p atts st0 =
                  (case r1 of Inl e \<Rightarrow> (Inl e, s1) | Inr x \<Rightarrow> rest s1)"
    using c by (simp add: tryBlock_def rest_def andThen_def [of "connectAndPrepare w cfg"]
                  split: sum.splits)
  show ?thesis
  proof (cases r1)
    case (Inl e)
    then have "st1 = s1"
      using run unfold by simp
    then show ?thesis
      using s1 by simp
  next
    case (Inr x)
    then have "rest s1 = (r, st1)"
      using run unfold by simp
    moreover have "recorded w s1 \<and> listening s1"
      using s1 Inr by simp
    ultimately show ?thesis
      using rest unfolding keeps_def by blast
  qed
qed

lemma disconnect_recorded:
  assumes enter: "enterRun w options (freshRun s) = (Inr (p, atts, cfg), st0)"
    and tb: "tryBlock w cfg p atts st0 = (r, st1)"
  shows "connectionClosedUnexpectedly st1 \<longleftrightarrow> disconnectHeard w (trace st1)"
proof -
  have "recorded w st0 \<and> \<not> listening st0"
    by (rule enterRun_recorded [OF enter])
  then have "recorded w st1"
    using tryBlock_recorded [OF tb] by blast
  then show ?thesis
    by (simp add: recorded_def)
qed

text \<open>What the catch and finally blocks do once the flag is set or the error matches.\<close>

lemma lost_by_flag:
  assumes enter: "enterRun w options (freshRun s) = (Inr (p, atts, cfg), st0)"
    and tb: "tryBlock w cfg p atts st0 = (r, st1)"
    and lost: "connectionClosedUnexpectedly st1
               \<or> (\<exists>e. r = Inl e \<and> isWebSocketClosureError (normalizeError e))"
  shows "fst (runBrowserMode w s options) =
           (case r of
              Inl e \<Rightarrow> Inl (ErrorWithCause
                  ''Chrome window closed before Oracle finished. Please keep it open until completion.''
                  (normalizeError e))
            | Inr res \<Rightarrow> Inr res)
         \<and> ClientClose \<notin> set (trace (snd (runBrowserMode w s options)))
         \<and> ChromeKill \<notin> set (trace (snd (runBrowserMode w s options)))"
proof -
  have before: "a \<notin> set (trace st1)" if "a = ClientClose \<or> a = ChromeKill" for a
  proof -
    have a': "a = EnsureModelSelection \<or> a = ClientClose \<or> a = ChromeKill \<or> a = RmUserDataDir
                \<or> a = RemoveTerminationHooks"
      using that by blast
    show ?thesis
      by (rule tryBlock_never [OF tb a' enterRun_never [OF enter a']])
  qed
  show ?thesis
  proof (cases r)
    case (Inr res)
    then have flag: "connectionClosedUnexpectedly st1"
      using lost by simp
    have run: "runBrowserMode w s options = (Inr res, finallyBlock w cfg st1)"
      using run_try_returned [OF enter] tb Inr by simp
    have "ClientClose \<notin> set (trace (finallyBlock w cfg st1))"
      by (rule finallyBlock_lost [OF flag _ before]) simp_all
    moreover have "ChromeKill \<notin> set (trace (finallyBlock w cfg st1))"
      by (rule finallyBlock_lost [OF flag _ before]) simp_all
    ultimately show ?thesis
      by (simp add: run Inr)
  next
    case (Inl e)
    obtain rc stc where c: "catchBlock e st1 = (rc, stc)"
      by (cases "catchBlock e st1")
    have run: "runBrowserMode w s options = (rc, finallyBlock w cfg stc)"
      using run_try_threw [OF enter _ c] tb Inl by simp
    have cond: "connectionClosedUnexpectedly st1 \<or> isWebSocketClosureError (normalizeError e)"
      using lost Inl by auto
    from catchBlock_result(3) [OF c cond]
    have rc: "rc = Inl (windowClosed (normalizeError e))" and flag: "connectionClosedUnexpectedly stc"
      by simp_all
    have stc: "stc = snd (catchBlock e st1)"
      using c by simp
    have after: "a \<notin> set (trace stc)" if "a = ClientClose \<or> a = ChromeKill" for a
      unfolding stc by (rule catchBlock_never [OF _ before [OF that]]) (use that in auto)
    have "ClientClose \<notin> set (trace (finallyBlock w cfg stc))"
      by (rule finallyBlock_lost [OF flag _ after]) simp_all
    moreover have "ChromeKill \<notin> set (trace (finallyBlock w cfg stc))"
      by (rule finallyBlock_lost [OF flag _ after]) simp_all
    ultimately show ?thesis
      by (simp add: run Inl rc windowClosed_def)
  qed
qed

text \<open>
  C3, amended.  When the connection emits a disconnect event while a call of the try
  block is awaited with the disconnect listener registered (any awaited call after
  connectToChrome), or the try block throws an error whose message matches a
  websocket-closure pattern, then: if the try block threw, runBrowserMode throws
  "Chrome window closed before Oracle finished. Please keep it open until completion."
  with the (normalised) error as its cause; if it returned (failures of the markdown
  capture are swallowed), runBrowserMode returns that result; and in both cases the
  teardown neither closes the connection nor kills the browser.
\<close>

theorem connection_lost:
  assumes enter: "enterRun w options (freshRun s) = (Inr (p, atts, cfg), st0)"
    and tb: "tryBlock w cfg p atts st0 = (r, st1)"
    and lost: "disconnectHeard w (trace st1)
               \<or> (\<exists>e. r = Inl e \<and> isWebSocketClosureError (normalizeError e))"
  shows "fst (runBrowserMode w s options) =
           (case r of
              Inl e \<Rightarrow> Inl (ErrorWithCause
                  ''Chrome window closed before Oracle finished. Please keep it open until completion.''
                  (normalizeError e))
            | Inr res \<Rightarrow> Inr res)
         \<and> ClientClose \<notin> set (trace (snd (runBrowserMode w s options)))
         \<and> ChromeKill \<notin> set (trace (snd (runBrowserMode w s options)))"
proof -
  have "connectionClosedUnexpectedly st1
          \<or> (\<exists>e. r = Inl e \<and> isWebSocketClosureError (normalizeError e))"
    using lost disconnect_recorded [OF enter tb] by blast
  then show ?thesis
    by (rule lost_by_flag [OF enter tb])
qed

subsection \<open>Concrete runs\<close>

lemmas run_defs = runBrowserMode_def enterRun_def tryBlock_def connectAndPrepare_def openPage_def
  uploadAttachments_def submitAndWait_def finishRun_def copiedMarkdown_def captureTask_def
  captureAssistantMarkdown_def catchBlock_def finallyBlock_def andThen_def await_def awaitWith_def
  awaitIgnoringErrors_def call_def succeed_def throw_def freshRun_def orElse_def
  resolveBrowserConfig_def DEFAULT_BROWSER_CONFIG_def syncCookiesStep_def Let_def
  trim_def isWhitespace_def charCode_def numeral_2_eq_2 noOverrides_def

lemma sync_quiet:
  "syncCookies quietEnv st send u [u] allow
     = ((Inr 0, noCookiesApplied), st\<lparr> importCalls := importCalls st + 1 \<rparr>)"
  by (simp add: syncCookies_def readChromeCookies_def loadChromeCookiesModule.simps quietEnv_def
        syncCookiesWith_def Let_def)

lemma calm_run:
  "runBrowserMode calmWorld initialSyncState helloOptions =
     (Inr \<lparr> answerText = ''Hi there'', answerMarkdown = ''Hi **there**'', answerHtml = None,
            tookMs = 1000, answerTokens = 12, answerChars = 8, chromePid = Some 4242,
            chromePort = 9222, userDataDir = ''/tmp/oracle-browser-1'' \<rparr>,
      \<lparr> trace = [MkdTemp, LaunchChrome, RegisterTerminationHooks, ConnectToChrome, EnableDomains,
           ClearBrowserCookies, SyncCookies, NavigateToChatGPT, EnsureNotBlocked,
           EnsurePromptReady, SubmitPrompt, StartThinkingStatusMonitor, WaitForAssistantResponse,
           CaptureAssistantMarkdown 0, StopThinkingMonitor, ClientClose, RemoveTerminationHooks,
           ChromeKill, RmUserDataDir],
        client = True, listening = True, hooks = True, monitor = True,
        connectionClosedUnexpectedly = False,
        sync = initialSyncState\<lparr> importCalls := 1 \<rparr> \<rparr>)"
  by (simp add: run_defs calmWorld_def helloOptions_def sync_quiet hiThereAnswer_def
        initialSyncState_def)

lemma two_files_run:
  "fst (runBrowserMode calmWorld initialSyncState twoFiles) =
     Inr \<lparr> answerText = ''Hi there'', answerMarkdown = ''Hi **there**'', answerHtml = None,
            tookMs = 1000, answerTokens = 12, answerChars = 8, chromePid = Some 4242,
            chromePort = 9222, userDataDir = ''/tmp/oracle-browser-1'' \<rparr>"
  by (simp add: run_defs calmWorld_def twoFiles_def sync_quiet hiThereAnswer_def)

lemma closed_capture_run:
  "runBrowserMode closedDuringCapture initialSyncState helloOptions =
     (Inr \<lparr> answerText = ''Hi there'', answerMarkdown = ''Hi there'', answerHtml = None,
            tookMs = 1000, answerTokens = 8, answerChars = 8, chromePid = Some 4242,
            chromePort = 9222, userDataDir = ''/tmp/oracle-browser-1'' \<rparr>,
      \<lparr> trace = [MkdTemp, LaunchChrome, RegisterTerminationHooks, ConnectToChrome, EnableDomains,
           ClearBrowserCookies, SyncCookies, NavigateToChatGPT, EnsureNotBlocked,
           EnsurePromptReady, SubmitPrompt, StartThinkingStatusMonitor, WaitForAssistantResponse,
           CaptureAssistantMarkdown 0, RetryDelay 0, CaptureAssistantMarkdown 1, RetryDelay 1,
           CaptureAssistantMarkdown 2, StopThinkingMonitor, RemoveTerminationHooks,
           RmUserDataDir],
        client = True, listening = True, hooks = True, monitor = True,
        connectionClosedUnexpectedly = True,
        sync = initialSyncState\<lparr> importCalls := 1 \<rparr> \<rparr>)"
  by (simp add: run_defs closedDuringCapture_def calmWorld_def helloOptions_def sync_quiet
        hiThereAnswer_def initialSyncState_def)

lemma closure_message: "isWebSocketClosureError (Error ''WebSocket is closed'')"
  by code_simp

lemma closure_message_wait: "isWebSocketClosureError (Error ''WebSocket connection closed'')"
  by code_simp

lemma copy_missing_run:
  "trace (snd (runBrowserMode copyMissing initialSyncState helloOptions)) =
     [MkdTemp, LaunchChrome, RegisterTerminationHooks, ConnectToChrome, EnableDomains,
      ClearBrowserCookies, SyncCookies, NavigateToChatGPT, EnsureNotBlocked,
      EnsurePromptReady, SubmitPrompt, StartThinkingStatusMonitor, WaitForAssistantResponse,
      CaptureAssistantMarkdown 0, RetryDelay 0, CaptureAssistantMarkdown 1, RetryDelay 1,
      CaptureAssistantMarkdown 2, StopThinkingMonitor, ClientClose, RemoveTerminationHooks,
      ChromeKill, RmUserDataDir]"
  by (simp add: run_defs copyMissing_def calmWorld_def helloOptions_def sync_quiet
        hiThereAnswer_def)

lemma composer_timeout_run:
  "runBrowserMode composerTimeout initialSyncState keepOptions =
     (Inl (Error ''Prompt textarea did not appear before timeout''),
      \<lparr> trace = [MkdTemp, LaunchChrome, RegisterTerminationHooks, ConnectToChrome, EnableDomains,
           ClearBrowserCookies, SyncCookies, NavigateToChatGPT, EnsureNotBlocked,
           EnsurePromptReady, ClientClose, RemoveTerminationHooks],
        client = True, listening = True, hooks = True, monitor = False,
        connectionClosedUnexpectedly = False,
        sync = initialSyncState\<lparr> importCalls := 1 \<rparr> \<rparr>)"
  by (simp add: run_defs composerTimeout_def calmWorld_def keepOptions_def sync_quiet
        initialSyncState_def isWebSocketClosureError_def toLowerCase_def toLowerChar_def)


lemma closed_wait_enter:
  "enterRun closedDuringWait helloOptions (freshRun initialSyncState) =
     (Inr (''Hello'', [], resolveBrowserConfig (defaultUrl closedDuringWait) (config helloOptions)),
      \<lparr> trace = [MkdTemp, LaunchChrome, RegisterTerminationHooks],
        client = False, listening = False, hooks = True, monitor = False,
        connectionClosedUnexpectedly = False, sync = initialSyncState \<rparr>)"
  by (simp add: run_defs closedDuringWait_def calmWorld_def helloOptions_def)

lemma closed_wait_try:
  "tryBlock closedDuringWait
     (resolveBrowserConfig (defaultUrl closedDuringWait) (config helloOptions)) ''Hello'' []
     \<lparr> trace = [MkdTemp, LaunchChrome, RegisterTerminationHooks],
       client = False, listening = False, hooks = True, monitor = False,
       connectionClosedUnexpectedly = False, sync = initialSyncState \<rparr> =
     (Inl (Error ''Runtime.evaluate timed out''),
      \<lparr> trace = [MkdTemp, LaunchChrome, RegisterTerminationHooks, ConnectToChrome, EnableDomains,
           ClearBrowserCookies, SyncCookies, NavigateToChatGPT, EnsureNotBlocked,
           EnsurePromptReady, SubmitPrompt, StartThinkingStatusMonitor, WaitForAssistantResponse],
        client = True, listening = True, hooks = True, monitor = True,
        connectionClosedUnexpectedly = True,
        sync = initialSyncState\<lparr> importCalls := 1 \<rparr> \<rparr>)"
  by (simp add: run_defs closedDuringWait_def calmWorld_def helloOptions_def sync_quiet
        initialSyncState_def)

lemma socket_error_enter:
  "enterRun socketErrorDuringWait helloOptions (freshRun initialSyncState) =
     (Inr (''Hello'', [],
           resolveBrowserConfig (defaultUrl socketErrorDuringWait) (config helloOptions)),
      \<lparr> trace = [MkdTemp, LaunchChrome, RegisterTerminationHooks],
        client = False, listening = False, hooks = True, monitor = False,
        connectionClosedUnexpectedly = False, sync = initialSyncState \<rparr>)"
  by (simp add: run_defs socketErrorDuringWait_def calmWorld_def helloOptions_def)

lemma socket_error_try:
  "tryBlock socketErrorDuringWait
     (resolveBrowserConfig (defaultUrl socketErrorDuringWait) (config helloOptions)) ''Hello'' []
     \<lparr> trace = [MkdTemp, LaunchChrome, RegisterTerminationHooks],
       client = False, listening = False, hooks = True, monitor = False,
       connectionClosedUnexpectedly = False, sync = initialSyncState \<rparr> =
     (Inl (Error ''WebSocket connection closed''),
      \<lparr> trace = [MkdTemp, LaunchChrome, RegisterTerminationHooks, ConnectToChrome, EnableDomains,
           ClearBrowserCookies, SyncCookies, NavigateToChatGPT, EnsureNotBlocked,
           EnsurePromptReady, SubmitPrompt, StartThinkingStatusMonitor, WaitForAssistantResponse],
        client = True, listening = True, hooks = True, monitor = True,
        connectionClosedUnexpectedly = False,
        sync = initialSyncState\<lparr> importCalls := 1 \<rparr> \<rparr>)"
  by (simp add: run_defs socketErrorDuringWait_def calmWorld_def helloOptions_def sync_quiet
        initialSyncState_def)

lemma closed_capture_enter:
  "enterRun closedDuringCapture helloOptions (freshRun initialSyncState) =
     (Inr (''Hello'', [],
           resolveBrowserConfig (defaultUrl closedDuringCapture) (config helloOptions)),
      \<lparr> trace = [MkdTemp, LaunchChrome, RegisterTerminationHooks],
        client = False, listening = False, hooks = True, monitor = False,
        connectionClosedUnexpectedly = False, sync = initialSyncState \<rparr>)"
  by (simp add: run_defs closedDuringCapture_def calmWorld_def helloOptions_def)

lemma closed_capture_try:
  "tryBlock closedDuringCapture
     (resolveBrowserConfig (defaultUrl closedDuringCapture) (config helloOptions)) ''Hello'' []
     \<lparr> trace = [MkdTemp, LaunchChrome, RegisterTerminationHooks],
       client = False, listening = False, hooks = True, monitor = False,
       connectionClosedUnexpectedly = False, sync = initialSyncState \<rparr> =
     (Inr \<lparr> answerText = ''Hi there'', answerMarkdown = ''Hi there'', answerHtml = None,
            tookMs = 1000, answerTokens = 8, answerChars = 8, chromePid = Some 4242,
            chromePort = 9222, userDataDir = ''/tmp/oracle-browser-1'' \<rparr>,
      \<lparr> trace = [MkdTemp, LaunchChrome, RegisterTerminationHooks, ConnectToChrome, EnableDomains,
           ClearBrowserCookies, SyncCookies, NavigateToChatGPT, EnsureNotBlocked,
           EnsurePromptReady, SubmitPrompt, StartThinkingStatusMonitor, WaitForAssistantResponse,
           CaptureAssistantMarkdown 0, RetryDelay 0, CaptureAssistantMarkdown 1, RetryDelay 1,
           CaptureAssistantMarkdown 2, StopThinkingMonitor],
        client = True, listening = True, hooks = True, monitor = True,
        connectionClosedUnexpectedly = True,
        sync = initialSyncState\<lparr> importCalls := 1 \<rparr> \<rparr>)"
  by (simp add: run_defs closedDuringCapture_def calmWorld_def helloOptions_def sync_quiet
        hiThereAnswer_def initialSyncState_def)

lemma no_closure_message: "\<not> isWebSocketClosureError (Error ''Runtime.evaluate timed out'')"
  by code_simp

text \<open>
  C1, as stated, fails.  With the desired model 5.1 Instant configured and every call
  succeeding, the run returns and its page steps are navigate, block check, composer
  ready, submit, response wait, capture: model selection is not among its actions.
\<close>

theorem model_selection_not_run:
  "desiredModel (resolveBrowserConfig (defaultUrl calmWorld) (config helloOptions))
     = Some ''5.1 Instant''
   \<and> fst (runBrowserMode calmWorld initialSyncState helloOptions) =
       Inr \<lparr> answerText = ''Hi there'', answerMarkdown = ''Hi **there**'', answerHtml = None,
              tookMs = 1000, answerTokens = 12, answerChars = 8, chromePid = Some 4242,
              chromePort = 9222, userDataDir = ''/tmp/oracle-browser-1'' \<rparr>
   \<and> filter isPageStep (trace (snd (runBrowserMode calmWorld initialSyncState helloOptions)))
       = [NavigateToChatGPT, EnsureNotBlocked, EnsurePromptReady, SubmitPrompt,
          WaitForAssistantResponse, CaptureAssistantMarkdown 0]
   \<and> EnsureModelSelection \<notin> set (trace (snd (runBrowserMode calmWorld initialSyncState helloOptions)))"
  by (simp add: calm_run)
     (simp add: resolveBrowserConfig_def helloOptions_def noOverrides_def Let_def)

theorem page_steps_in_order_witness:
  "fst (runBrowserMode calmWorld initialSyncState twoFiles) =
     Inr \<lparr> answerText = ''Hi there'', answerMarkdown = ''Hi **there**'', answerHtml = None,
            tookMs = 1000, answerTokens = 12, answerChars = 8, chromePid = Some 4242,
            chromePort = 9222, userDataDir = ''/tmp/oracle-browser-1'' \<rparr>
   \<and> prefix [NavigateToChatGPT, EnsureNotBlocked, EnsurePromptReady,
              UploadAttachmentFile ''/repo/a.txt'', UploadAttachmentFile ''/repo/b.txt'',
              WaitForAttachmentCompletion, SubmitPrompt, WaitForAssistantResponse,
              CaptureAssistantMarkdown 0]
        (filter isPageStep (trace (snd (runBrowserMode calmWorld initialSyncState twoFiles))))
   \<and> prefix (filter isPageStep (trace (snd (runBrowserMode calmWorld initialSyncState twoFiles))))
        [NavigateToChatGPT, EnsureNotBlocked, EnsurePromptReady,
         UploadAttachmentFile ''/repo/a.txt'', UploadAttachmentFile ''/repo/b.txt'',
         WaitForAttachmentCompletion, SubmitPrompt, WaitForAssistantResponse,
         CaptureAssistantMarkdown 0, CaptureAssistantMarkdown 1, CaptureAssistantMarkdown 2]
   \<and> EnsureModelSelection \<notin> set (trace (snd (runBrowserMode calmWorld initialSyncState twoFiles)))"
  using page_steps_in_order [of calmWorld initialSyncState twoFiles] two_files_run
  by (simp add: twoFiles_def uploadSteps_def pageSteps_def orElse_def)

theorem keepBrowser_no_kill_witness:
  "keepBrowser (resolveBrowserConfig (defaultUrl composerTimeout) (config keepOptions))
   \<and> fst (runBrowserMode composerTimeout initialSyncState keepOptions)
       = Inl (Error ''Prompt textarea did not appear before timeout'')
   \<and> ChromeKill \<notin> set (trace (snd (runBrowserMode composerTimeout initialSyncState keepOptions)))
   \<and> RmUserDataDir \<notin> set (trace (snd (runBrowserMode composerTimeout initialSyncState keepOptions)))"
proof -
  have keep: "keepBrowser (resolveBrowserConfig (defaultUrl composerTimeout) (config keepOptions))"
    by (simp add: resolveBrowserConfig_def keepOptions_def noOverrides_def orElse_def Let_def)
  have failed: "fst (runBrowserMode composerTimeout initialSyncState keepOptions)
       = Inl (Error ''Prompt textarea did not appear before timeout'')"
    by (simp add: composer_timeout_run)
  show ?thesis
    using keep failed keepBrowser_no_kill [OF keep, of initialSyncState] by blast
qed

text \<open>
  C3, as stated, fails.  The connection emits disconnect during the first capture
  attempt and every capture attempt throws "WebSocket is closed", a message that
  matches a closure pattern; the run nevertheless returns its result (with the plain
  text as markdown) instead of throwing.
\<close>

theorem closed_during_capture_returns:
  "disconnectDuring closedDuringCapture (CaptureAssistantMarkdown 0)
   \<and> stepFailure closedDuringCapture (CaptureAssistantMarkdown 0) = Some (Error ''WebSocket is closed'')
   \<and> isWebSocketClosureError (Error ''WebSocket is closed'')
   \<and> CaptureAssistantMarkdown 0
       \<in> set (trace (snd (runBrowserMode closedDuringCapture initialSyncState helloOptions)))
   \<and> fst (runBrowserMode closedDuringCapture initialSyncState helloOptions) =
       Inr \<lparr> answerText = ''Hi there'', answerMarkdown = ''Hi there'', answerHtml = None,
              tookMs = 1000, answerTokens = 8, answerChars = 8, chromePid = Some 4242,
              chromePort = 9222, userDataDir = ''/tmp/oracle-browser-1'' \<rparr>"
  using closure_message
  by (simp add: closed_capture_run) (simp add: closedDuringCapture_def)

text \<open>Three runs.  In the first the connection emits disconnect while the answer is
  awaited and the wait fails with a message that matches no closure pattern; in the
  second no disconnect is emitted and the wait fails with a closure message; in the
  third the connection emits disconnect during the first capture attempt, the try
  block returns, and the teardown leaves the connection and the browser alone.\<close>

theorem connection_lost_witness:
  "disconnectDuring closedDuringWait WaitForAssistantResponse
   \<and> \<not> isWebSocketClosureError (Error ''Runtime.evaluate timed out'')
   \<and> fst (runBrowserMode closedDuringWait initialSyncState helloOptions) =
       Inl (ErrorWithCause
              ''Chrome window closed before Oracle finished. Please keep it open until completion.''
              (Error ''Runtime.evaluate timed out''))
   \<and> ClientClose \<notin> set (trace (snd (runBrowserMode closedDuringWait initialSyncState helloOptions)))
   \<and> ChromeKill \<notin> set (trace (snd (runBrowserMode closedDuringWait initialSyncState helloOptions)))
   \<and> disconnectDuring socketErrorDuringWait = (\<lambda>a. False)
   \<and> isWebSocketClosureError (Error ''WebSocket connection closed'')
   \<and> fst (runBrowserMode socketErrorDuringWait initialSyncState helloOptions) =
       Inl (ErrorWithCause
              ''Chrome window closed before Oracle finished. Please keep it open until completion.''
              (Error ''WebSocket connection closed''))
   \<and> ClientClose \<notin> set (trace (snd (runBrowserMode socketErrorDuringWait initialSyncState helloOptions)))
   \<and> ChromeKill \<notin> set (trace (snd (runBrowserMode socketErrorDuringWait initialSyncState helloOptions)))
   \<and> disconnectDuring closedDuringCapture (CaptureAssistantMarkdown 0)
   \<and> ClientClose \<notin> set (trace (snd (runBrowserMode closedDuringCapture initialSyncState helloOptions)))
   \<and> ChromeKill \<notin> set (trace (snd (runBrowserMode closedDuringCapture initialSyncState helloOptions)))"
proof -
  have event: "disconnectDuring closedDuringWait WaitForAssistantResponse"
    by (simp add: closedDuringWait_def)
  have heard_it: "disconnectHeard closedDuringWait
       [MkdTemp, LaunchChrome, RegisterTerminationHooks, ConnectToChrome, EnableDomains,
        ClearBrowserCookies, SyncCookies, NavigateToChatGPT, EnsureNotBlocked,
        EnsurePromptReady, SubmitPrompt, StartThinkingStatusMonitor, WaitForAssistantResponse]"
    by (simp add: disconnectHeard_def closedDuringWait_def)
  have silent: "disconnectDuring socketErrorDuringWait = (\<lambda>a. False)"
    by (simp add: socketErrorDuringWait_def calmWorld_def)
  have first: "fst (runBrowserMode closedDuringWait initialSyncState helloOptions) =
       Inl (ErrorWithCause
              ''Chrome window closed before Oracle finished. Please keep it open until completion.''
              (Error ''Runtime.evaluate timed out''))
   \<and> ClientClose \<notin> set (trace (snd (runBrowserMode closedDuringWait initialSyncState helloOptions)))
   \<and> ChromeKill \<notin> set (trace (snd (runBrowserMode closedDuringWait initialSyncState helloOptions)))"
    using connection_lost [OF closed_wait_enter closed_wait_try] heard_it by simp
  have second: "fst (runBrowserMode socketErrorDuringWait initialSyncState helloOptions) =
       Inl (ErrorWithCause
              ''Chrome window closed before Oracle finished. Please keep it open until completion.''
              (Error ''WebSocket connection closed''))
   \<and> ClientClose \<notin> set (trace (snd (runBrowserMode socketErrorDuringWait initialSyncState helloOptions)))
   \<and> ChromeKill \<notin> set (trace (snd (runBrowserMode socketErrorDuringWait initialSyncState helloOptions)))"
    using connection_lost [OF socket_error_enter socket_error_try] closure_message_wait by simp
  have capture: "disconnectDuring closedDuringCapture (CaptureAssistantMarkdown 0)"
    by (simp add: closedDuringCapture_def)
  have heard_capture: "disconnectHeard closedDuringCapture
       [MkdTemp, LaunchChrome, RegisterTerminationHooks, ConnectToChrome, EnableDomains,
        ClearBrowserCookies, SyncCookies, NavigateToChatGPT, EnsureNotBlocked,
        EnsurePromptReady, SubmitPrompt, StartThinkingStatusMonitor, WaitForAssistantResponse,
        CaptureAssistantMarkdown 0, RetryDelay 0, CaptureAssistantMarkdown 1, RetryDelay 1,
        CaptureAssistantMarkdown 2, StopThinkingMonitor]"
    by (simp add: disconnectHeard_def closedDuringCapture_def)
  have third: "ClientClose \<notin> set (trace (snd (runBrowserMode closedDuringCapture initialSyncState helloOptions)))
   \<and> ChromeKill \<notin> set (trace (snd (runBrowserMode closedDuringCapture initialSyncState helloOptions)))"
    using connection_lost [OF closed_capture_enter closed_capture_try] heard_capture by simp
  show ?thesis
    using event no_closure_message first silent closure_message_wait second capture third
    by blast
qed

theorem capture_failure_not_fatal_witness:
  "WaitForAssistantResponse
     \<in> set (trace (snd (runBrowserMode copyMissing initialSyncState helloOptions)))
   \<and> stepFailure copyMissing WaitForAssistantResponse = None
   \<and> captureFails copyMissing 0 \<and> captureFails copyMissing 1 \<and> captureFails copyMissing 2
   \<and> (\<exists>res. fst (runBrowserMode copyMissing initialSyncState helloOptions) = Inr res
          \<and> answerText res = ''Hi there'' \<and> answerMarkdown res = ''Hi there'')"
proof -
  have waited: "WaitForAssistantResponse
     \<in> set (trace (snd (runBrowserMode copyMissing initialSyncState helloOptions)))"
    by (simp add: copy_missing_run)
  have ok: "stepFailure copyMissing WaitForAssistantResponse = None"
    by (simp add: copyMissing_def calmWorld_def)
  have fails: "captureFails copyMissing 0 \<and> captureFails copyMissing 1 \<and> captureFails copyMissing 2"
    by (simp add: captureFails_def copyMissing_def calmWorld_def)
  have ans: "answer_text (answer copyMissing) = ''Hi there''"
    by (simp add: copyMissing_def calmWorld_def hiThereAnswer_def)
  from capture_failure_not_fatal [OF waited ok] fails ans
  have "\<exists>res. fst (runBrowserMode copyMissing initialSyncState helloOptions) = Inr res
          \<and> answerText res = ''Hi there'' \<and> answerMarkdown res = ''Hi there''"
    by auto
  then show ?thesis
    using waited ok fails by blast
qed



subsection \<open>The settle window\<close>
























end
